theory Spec2Isabelle
  imports Complex_Main
begin

section \<open>The autoencoder of \<open>part_b/modified_neural_network.py\<close>\<close>

text \<open>
  The script trains a three-layer autoencoder on a student/question response matrix.
  Tensors of 32-bit floats are modelled over the reals: a vector is a \<open>real list\<close>, a
  matrix a list of rows. Sums and products are exact, and the non-finite floats are
  outside the model; the one non-finite value the script relies on, the NaN that marks a
  missing entry of the raw matrix, is \<open>None\<close> in a \<open>real option\<close>. The result
  of \<open>torch.sigmoid\<close> is rounded to a 32-bit float, so that its saturation at 0 and 1
  is part of the model.
  Every forward pass in the script runs on a batch of one row (\<open>unsqueeze(0)\<close> and
  \<open>output[0]\<close>); the model works on the row itself.
\<close>

subsection \<open>Errors and indexing\<close>

text \<open>
  The exceptions the script can raise on its own data: Python's \<open>IndexError\<close> and
  \<open>ZeroDivisionError\<close>, and \<open>ShapeError\<close> for the \<open>RuntimeError\<close> torch raises
  when a layer is applied to an input of the wrong size.
\<close>

datatype error = IndexError | ZeroDivisionError | ShapeError

type_synonym vec = "real list"
type_synonym matrix = "real list list"

text \<open>Indexing by a loop counter (\<open>range\<close>, \<open>enumerate\<close>): never negative.\<close>

definition getitem_nat :: "'a list \<Rightarrow> nat \<Rightarrow> error + 'a" where
  "getitem_nat xs i = (if i < length xs then Inr (xs ! i) else Inl IndexError)"

text \<open>Indexing by an integer read from the data: a negative index counts from the end.\<close>

definition getitem :: "'a list \<Rightarrow> int \<Rightarrow> error + 'a" where
  "getitem xs i =
     (if 0 \<le> i \<and> i < int (length xs) then Inr (xs ! nat i)
      else if i < 0 \<and> - int (length xs) \<le> i then Inr (xs ! nat (int (length xs) + i))
      else Inl IndexError)"

subsection \<open>The model: three linear layers\<close>

text \<open>
  \<open>nn.Linear(in_features, out_features)\<close> holds a weight of shape
  \<open>(out_features, in_features)\<close> and a bias of length \<open>out_features\<close>.
\<close>

record Linear =
  in_features :: nat
  out_features :: nat
  weight :: matrix
  bias :: vec

record AutoEncoder =
  g :: Linear
  hidden :: Linear
  h :: Linear
  training :: bool

definition Linear_shape :: "nat \<Rightarrow> nat \<Rightarrow> Linear \<Rightarrow> bool" where
  "Linear_shape n_in n_out l =
     (in_features l = n_in \<and> out_features l = n_out \<and>
      length (weight l) = n_out \<and> list_all (\<lambda>row. length row = n_in) (weight l) \<and>
      length (bias l) = n_out)"

text \<open>The shapes that \<open>AutoEncoder.__init__(num_question, k)\<close> constructs.\<close>

definition AutoEncoder_shape :: "nat \<Rightarrow> nat \<Rightarrow> AutoEncoder \<Rightarrow> bool" where
  "AutoEncoder_shape num_question k m =
     (Linear_shape num_question k (g m) \<and> Linear_shape k k (hidden m) \<and>
      Linear_shape k num_question (h m))"

subsection \<open>\<open>get_weight_norm\<close>\<close>

text \<open>
  \<open>torch.norm(W, 2)\<close> without a \<open>dim\<close> flattens the tensor and takes the vector
  2-norm, which for a matrix is its Frobenius norm.
\<close>

definition torch_norm :: "matrix \<Rightarrow> real" where
  "torch_norm W = sqrt (sum_list (map (\<lambda>x. x ^ 2) (concat W)))"

definition get_weight_norm :: "AutoEncoder \<Rightarrow> real" where
  "get_weight_norm m =
     (let g_w_norm = torch_norm (weight (g m)) ^ 2;
          hidden_w_norm = torch_norm (weight (hidden m)) ^ 2;
          h_w_norm = torch_norm (weight (h m)) ^ 2
      in g_w_norm + h_w_norm)"

text \<open>The squared Frobenius norm as the specification words it: the sum of the squared entries.\<close>

definition frobenius_sq :: "matrix \<Rightarrow> real" where
  "frobenius_sq W = sum_list (map (\<lambda>x. x * x) (concat W))"

definition spec_weight_norm :: "AutoEncoder \<Rightarrow> real" where
  "spec_weight_norm m =
     frobenius_sq (weight (g m)) + frobenius_sq (weight (hidden m)) + frobenius_sq (weight (h m))"

definition all_zero :: "matrix \<Rightarrow> bool" where
  "all_zero W = list_all (\<lambda>x. x = 0) (concat W)"

subsection \<open>\<open>forward\<close>\<close>

text \<open>
  \<open>torch.sigmoid\<close> on a tensor of 32-bit floats returns 32-bit floats: the logistic
  function, rounded. For \<open>d\<close> from 0 to 125, the 32-bit floats from \<open>1 / 2 ^ (d + 1)\<close>
  up to \<open>1 / 2 ^ d\<close> are the multiples of \<open>1 / 2 ^ (d + 24)\<close>; below
  \<open>1 / 2 ^ 126\<close> they are the multiples of \<open>1 / 2 ^ 149\<close> (gradual underflow).
  \<open>doublings 125 y\<close> finds \<open>d\<close> for a \<open>y\<close> between 0 and 1, where the logistic
  function takes its values, and \<open>float32_round\<close> rounds \<open>y\<close> to the nearest multiple,
  a tie to the even one. torch's kernel may differ from this in the last place; the
  value at 0 and the saturation at both ends do not depend on that.
\<close>

definition logistic :: "real \<Rightarrow> real" where
  "logistic x = 1 / (1 + exp (- x))"

fun doublings :: "nat \<Rightarrow> real \<Rightarrow> nat" where
  "doublings 0 y = 0"
| "doublings (Suc n) y = (if 1 / 2 \<le> y then 0 else Suc (doublings n (2 * y)))"

definition round_even :: "real \<Rightarrow> int" where
  "round_even z =
     (let n = \<lfloor>z\<rfloor>; r = z - of_int n
      in if r < 1 / 2 then n else if 1 / 2 < r then n + 1 else if even n then n else n + 1)"

definition float32_round :: "real \<Rightarrow> real" where
  "float32_round y =
     (let d = doublings 125 y
      in of_int (round_even (y * 2 ^ (d + 24))) / 2 ^ (d + 24))"

definition sigmoid :: "real \<Rightarrow> real" where
  "sigmoid x = float32_round (logistic x)"

definition dot :: "vec \<Rightarrow> vec \<Rightarrow> real" where
  "dot xs ys = sum_list (map2 (*) xs ys)"

text \<open>The affine map \<open>x W\<^sup>T + b\<close> of a layer, on an input of the right length.\<close>

definition affine :: "Linear \<Rightarrow> vec \<Rightarrow> vec" where
  "affine l x = map2 (\<lambda>row b. dot row x + b) (weight l) (bias l)"

text \<open>Calling a layer: torch raises when the input's length is not the layer's \<open>in_features\<close>.\<close>

definition linear :: "Linear \<Rightarrow> vec \<Rightarrow> error + vec" where
  "linear l x = (if length x = in_features l then Inr (affine l x) else Inl ShapeError)"

definition forward :: "AutoEncoder \<Rightarrow> vec \<Rightarrow> error + vec" where
  "forward m inputs =
     (case linear (g m) inputs of Inl e \<Rightarrow> Inl e | Inr out1 \<Rightarrow>
      case linear (hidden m) (map sigmoid out1) of Inl e \<Rightarrow> Inl e | Inr out2 \<Rightarrow>
      case linear (h m) (map sigmoid out2) of Inl e \<Rightarrow> Inl e | Inr out3 \<Rightarrow>
      Inr (map sigmoid out3))"

text \<open>The composition that \<open>forward\<close> computes when no layer rejects its input.\<close>

definition reconstruction :: "AutoEncoder \<Rightarrow> vec \<Rightarrow> vec" where
  "reconstruction m x =
     map sigmoid (affine (h m) (map sigmoid (affine (hidden m) (map sigmoid (affine (g m) x)))))"

subsection \<open>\<open>evaluate\<close>\<close>

text \<open>
  Modelled from the spec: the loader of the triples (\<open>utils\<close>) is not among the
  sources. The specification gives three parallel sequences of user ids, question ids
  and boolean or integer correctness labels; a Python boolean is the integer 0 or 1,
  so all three are lists of integers. The keys are the ones \<open>evaluate\<close> reads.
\<close>

record valid_data =
  user_id :: "int list"
  question_id :: "int list"
  is_correct :: "int list"

text \<open>\<open>guess == label\<close> compares a Python bool with an integer: \<open>True == 1\<close>, \<open>False == 0\<close>.\<close>

definition guess_matches :: "bool \<Rightarrow> int \<Rightarrow> bool" where
  "guess_matches guess label = ((if guess then 1 else 0) = label)"

text \<open>
  The objects \<open>evaluate\<close> can reach (the model and the input matrix) and its two
  counters, passed through the loop explicitly.
\<close>

record eval_state =
  ev_model :: AutoEncoder
  ev_data :: matrix
  total :: nat
  correct :: nat

definition evaluate_step :: "valid_data \<Rightarrow> eval_state \<Rightarrow> nat \<times> int \<Rightarrow> error + eval_state" where
  "evaluate_step vd s iu =
     (case iu of (i, u) \<Rightarrow>
      case getitem (ev_data s) u of Inl e \<Rightarrow> Inl e | Inr inputs \<Rightarrow>
      case forward (ev_model s) inputs of Inl e \<Rightarrow> Inl e | Inr output \<Rightarrow>
      case getitem_nat (question_id vd) i of Inl e \<Rightarrow> Inl e | Inr q \<Rightarrow>
      case getitem output q of Inl e \<Rightarrow> Inl e | Inr v \<Rightarrow>
      let guess = (1 / 2 \<le> v) in
      case getitem_nat (is_correct vd) i of Inl e \<Rightarrow> Inl e | Inr label \<Rightarrow>
      Inr (s\<lparr>correct := (if guess_matches guess label then correct s + 1 else correct s),
             total := total s + 1\<rparr>))"

text \<open>The loop returns the exception that stopped it, if any, and the state it leaves.\<close>

fun evaluate_loop :: "valid_data \<Rightarrow> (nat \<times> int) list \<Rightarrow> eval_state \<Rightarrow> error option \<times> eval_state" where
  "evaluate_loop vd [] s = (None, s)"
| "evaluate_loop vd (iu # rest) s =
     (case evaluate_step vd s iu of
        Inl e \<Rightarrow> (Some e, s)
      | Inr s' \<Rightarrow> evaluate_loop vd rest s')"

text \<open>
  \<open>evaluate\<close> returns its result (or the exception raised) together with the model
  and the matrix as the call leaves them. \<open>model.eval()\<close> clears the training flag.
\<close>

definition evaluate ::
  "AutoEncoder \<Rightarrow> matrix \<Rightarrow> valid_data \<Rightarrow> (error + real) \<times> AutoEncoder \<times> matrix" where
  "evaluate m train_data vd =
     (case evaluate_loop vd (enumerate 0 (user_id vd))
             \<lparr>ev_model = m\<lparr>training := False\<rparr>, ev_data = train_data, total = 0, correct = 0\<rparr>
      of (Some e, s) \<Rightarrow> (Inl e, ev_model s, ev_data s)
       | (None, s) \<Rightarrow>
           (if total s = 0 then Inl ZeroDivisionError
            else Inr (real (correct s) / real (total s)),
            ev_model s, ev_data s))"

subsection \<open>\<open>train\<close>\<close>

text \<open>
  The raw matrix keeps the missing marker: \<open>None\<close> is NaN. \<open>optim.SGD\<close> without
  momentum is its learning rate; both optimizers of \<open>train\<close> hold the same parameters.
\<close>

type_synonym raw_matrix = "real option list list"

datatype SGD = SGD (sgd_lr: real)

definition isnan :: "real option \<Rightarrow> bool" where
  "isnan x = (x = None)"

text \<open>
  The gradients that \<open>loss.backward()\<close> leaves on the six parameter tensors: a weight
  and a bias gradient per layer. They are computed by torch's automatic differentiation,
  which is not part of the script: the functions below take it as the parameter \<open>bw\<close>,
  a function of the model, the input row, the mask and \<open>lamb\<close>.
\<close>

record grads =
  grad_g :: "matrix \<times> vec"
  grad_hidden :: "matrix \<times> vec"
  grad_h :: "matrix \<times> vec"

type_synonym backward = "AutoEncoder \<Rightarrow> vec \<Rightarrow> bool list \<Rightarrow> real \<Rightarrow> grads"

text \<open>\<open>optimizer.step()\<close>: every parameter moves against its gradient by the learning rate.\<close>

definition step_layer :: "real \<Rightarrow> Linear \<Rightarrow> matrix \<times> vec \<Rightarrow> Linear" where
  "step_layer rate l gr =
     l\<lparr>weight := map2 (map2 (\<lambda>p d. p - rate * d)) (weight l) (fst gr),
       bias := map2 (\<lambda>p d. p - rate * d) (bias l) (snd gr)\<rparr>"

definition step :: "SGD \<Rightarrow> AutoEncoder \<Rightarrow> grads \<Rightarrow> AutoEncoder" where
  "step opt m gr =
     m\<lparr>g := step_layer (sgd_lr opt) (g m) (grad_g gr),
       hidden := step_layer (sgd_lr opt) (hidden m) (grad_hidden gr),
       h := step_layer (sgd_lr opt) (h m) (grad_h gr)\<rparr>"

text \<open>
  \<open>target[0][nan_mask] = output[0][nan_mask]\<close>: a boolean mask must have the shape of
  the tensor it indexes. \<open>target\<close> is a clone of the input row, so the assignment does
  not reach \<open>zero_train_data\<close>.
\<close>

definition masked_target :: "vec \<Rightarrow> bool list \<Rightarrow> vec \<Rightarrow> error + vec" where
  "masked_target target nan_mask output =
     (if length nan_mask = length output \<and> length nan_mask = length target
      then Inr (map (\<lambda>(t, b, out). if b then out else t) (zip target (zip nan_mask output)))
      else Inl IndexError)"

definition sample_loss :: "AutoEncoder \<Rightarrow> real \<Rightarrow> vec \<Rightarrow> vec \<Rightarrow> real" where
  "sample_loss m lamb output target =
     sum_list (map2 (\<lambda>out t. (out - t) ^ 2) output target) + lamb / 2 * get_weight_norm m"

text \<open>
  Lines 122 and 124 as a function of the reconstruction: the loss of one sample, with
  the target following the output at the masked positions.
\<close>

definition loss_of_output :: "AutoEncoder \<Rightarrow> real \<Rightarrow> vec \<Rightarrow> bool list \<Rightarrow> vec \<Rightarrow> error + real" where
  "loss_of_output m lamb inputs nan_mask output =
     (case masked_target inputs nan_mask output of
        Inl e \<Rightarrow> Inl e
      | Inr target \<Rightarrow> Inr (sample_loss m lamb output target))"

text \<open>The body of the loop over users, on the pair of the model and the running loss.\<close>

definition train_user ::
  "backward \<Rightarrow> SGD \<Rightarrow> real \<Rightarrow> raw_matrix \<Rightarrow> matrix \<Rightarrow> AutoEncoder \<times> real \<Rightarrow> nat \<Rightarrow>
   error + AutoEncoder \<times> real" where
  "train_user bw opt lamb train_data zero_train_data s u =
     (case s of (m, train_loss) \<Rightarrow>
      case getitem_nat zero_train_data u of Inl e \<Rightarrow> Inl e | Inr inputs \<Rightarrow>
      case forward m inputs of Inl e \<Rightarrow> Inl e | Inr output \<Rightarrow>
      case getitem_nat train_data u of Inl e \<Rightarrow> Inl e | Inr raw \<Rightarrow>
      let nan_mask = map isnan raw in
      case loss_of_output m lamb inputs nan_mask output of Inl e \<Rightarrow> Inl e | Inr loss \<Rightarrow>
      Inr (step opt m (bw m inputs nan_mask lamb), train_loss + loss))"

fun train_users ::
  "backward \<Rightarrow> SGD \<Rightarrow> real \<Rightarrow> raw_matrix \<Rightarrow> matrix \<Rightarrow> nat list \<Rightarrow> AutoEncoder \<times> real \<Rightarrow>
   error + AutoEncoder \<times> real" where
  "train_users bw opt lamb train_data zero_train_data [] s = Inr s"
| "train_users bw opt lamb train_data zero_train_data (u # us) s =
     (case train_user bw opt lamb train_data zero_train_data s u of
        Inl e \<Rightarrow> Inl e
      | Inr s' \<Rightarrow> train_users bw opt lamb train_data zero_train_data us s')"

text \<open>
  The variables of \<open>train\<close> that live across epochs. The model and the zero-filled
  matrix are the objects \<open>evaluate\<close> is handed at the end of every epoch; the next
  epoch continues with them as \<open>evaluate\<close> left them.
\<close>

record train_state =
  model :: AutoEncoder
  zero_data :: matrix
  optimizer :: SGD
  train_loss_lst :: "real list"
  valid_acc_lst :: "real list"

text \<open>
  One epoch with the optimizer given: the model is put in training mode, every user is
  visited once, then the model is evaluated on the validation triples.
\<close>

definition run_epoch ::
  "backward \<Rightarrow> SGD \<Rightarrow> real \<Rightarrow> raw_matrix \<Rightarrow> valid_data \<Rightarrow> train_state \<Rightarrow> error + train_state" where
  "run_epoch bw opt lamb train_data vd st =
     (case train_users bw opt lamb train_data (zero_data st) [0..<length train_data]
             ((model st)\<lparr>training := True\<rparr>, 0)
      of Inl e \<Rightarrow> Inl e
       | Inr (m, train_loss) \<Rightarrow>
           (case evaluate m (zero_data st) vd of
              (Inl e, _) \<Rightarrow> Inl e
            | (Inr valid_acc, m', ztd') \<Rightarrow>
                Inr \<lparr>model = m', zero_data = ztd', optimizer = opt,
                     train_loss_lst = train_loss_lst st @ [train_loss],
                     valid_acc_lst = valid_acc_lst st @ [valid_acc]\<rparr>))"

text \<open>The body of the epoch loop: from epoch 40 on, \<open>optimizer\<close> is rebound.\<close>

definition train_epoch ::
  "backward \<Rightarrow> SGD \<Rightarrow> real \<Rightarrow> raw_matrix \<Rightarrow> valid_data \<Rightarrow> train_state \<Rightarrow> nat \<Rightarrow>
   error + train_state" where
  "train_epoch bw optimizer_final lamb train_data vd st epoch =
     run_epoch bw (if epoch \<ge> 40 then optimizer_final else optimizer st) lamb train_data vd st"

fun train_epochs ::
  "backward \<Rightarrow> SGD \<Rightarrow> real \<Rightarrow> raw_matrix \<Rightarrow> valid_data \<Rightarrow> nat list \<Rightarrow> train_state \<Rightarrow>
   error + train_state" where
  "train_epochs bw optimizer_final lamb train_data vd [] st = Inr st"
| "train_epochs bw optimizer_final lamb train_data vd (epoch # epochs) st =
     (case train_epoch bw optimizer_final lamb train_data vd st epoch of
        Inl e \<Rightarrow> Inl e
      | Inr st' \<Rightarrow> train_epochs bw optimizer_final lamb train_data vd epochs st')"

text \<open>
  \<open>train\<close>: the two optimizers, the epoch loop, then the report of
  \<open>valid_acc_lst[-1]\<close>. The plots are left out. The result is the final state of the
  loop's variables.
\<close>

definition train ::
  "backward \<Rightarrow> AutoEncoder \<Rightarrow> real \<Rightarrow> real \<Rightarrow> raw_matrix \<Rightarrow> matrix \<Rightarrow> valid_data \<Rightarrow> int \<Rightarrow>
   error + train_state" where
  "train bw m lr lamb train_data zero_train_data vd num_epoch =
     (case train_epochs bw (SGD (lr * 0.5)) lamb train_data vd [0..<nat num_epoch]
             \<lparr>model = m, zero_data = zero_train_data, optimizer = SGD lr,
              train_loss_lst = [], valid_acc_lst = []\<rparr>
      of Inl e \<Rightarrow> Inl e
       | Inr st \<Rightarrow>
           (case getitem (valid_acc_lst st) (- 1) of
              Inl e \<Rightarrow> Inl e
            | Inr final_acc \<Rightarrow> Inr st))"

text \<open>
  The learning-rate schedule as the specification words it: a function of the epoch
  index, the original rate below 40 and half of it from 40 on.
\<close>

definition scheduled_lr :: "real \<Rightarrow> nat \<Rightarrow> real" where
  "scheduled_lr lr epoch = (if epoch < 40 then lr else lr / 2)"

fun scheduled_epochs ::
  "backward \<Rightarrow> real \<Rightarrow> real \<Rightarrow> raw_matrix \<Rightarrow> valid_data \<Rightarrow> nat list \<Rightarrow> train_state \<Rightarrow>
   error + train_state" where
  "scheduled_epochs bw lr lamb train_data vd [] st = Inr st"
| "scheduled_epochs bw lr lamb train_data vd (epoch # epochs) st =
     (case run_epoch bw (SGD (scheduled_lr lr epoch)) lamb train_data vd st of
        Inl e \<Rightarrow> Inl e
      | Inr st' \<Rightarrow> scheduled_epochs bw lr lamb train_data vd epochs st')"

definition scheduled_train ::
  "backward \<Rightarrow> AutoEncoder \<Rightarrow> real \<Rightarrow> real \<Rightarrow> raw_matrix \<Rightarrow> matrix \<Rightarrow> valid_data \<Rightarrow> int \<Rightarrow>
   error + train_state" where
  "scheduled_train bw m lr lamb train_data zero_train_data vd num_epoch =
     (case scheduled_epochs bw lr lamb train_data vd [0..<nat num_epoch]
             \<lparr>model = m, zero_data = zero_train_data, optimizer = SGD lr,
              train_loss_lst = [], valid_acc_lst = []\<rparr>
      of Inl e \<Rightarrow> Inl e
       | Inr st \<Rightarrow>
           (case getitem (valid_acc_lst st) (- 1) of
              Inl e \<Rightarrow> Inl e
            | Inr final_acc \<Rightarrow> Inr st))"

subsection \<open>Well-formed inputs\<close>

text \<open>An index Python accepts on a sequence of length \<open>n\<close>, and the element it selects.\<close>

definition index_ok :: "nat \<Rightarrow> int \<Rightarrow> bool" where
  "index_ok n i = (- int n \<le> i \<and> i < int n)"

definition py_nth :: "'a list \<Rightarrow> int \<Rightarrow> 'a" where
  "py_nth xs i = xs ! nat (if i < 0 then int (length xs) + i else i)"

definition matrix_shape :: "nat \<Rightarrow> nat \<Rightarrow> 'a list list \<Rightarrow> bool" where
  "matrix_shape n_rows n_cols M = (length M = n_rows \<and> list_all (\<lambda>row. length row = n_cols) M)"

text \<open>
  A triple set for a matrix of \<open>num_user\<close> rows and \<open>num_question\<close> columns: three
  lists of one length, every user and question index in range.
\<close>

definition triples_ok :: "nat \<Rightarrow> nat \<Rightarrow> valid_data \<Rightarrow> bool" where
  "triples_ok num_user num_question vd =
     (length (question_id vd) = length (user_id vd) \<and>
      length (is_correct vd) = length (user_id vd) \<and>
      list_all (index_ok num_user) (user_id vd) \<and>
      list_all (index_ok num_question) (question_id vd))"

definition triples :: "valid_data \<Rightarrow> (int \<times> int \<times> int) list" where
  "triples vd = zip (user_id vd) (zip (question_id vd) (is_correct vd))"

text \<open>
  The decision rule as the specification words it: the number of triples whose label
  agrees with "the reconstructed value at the question is at least 0.5".
\<close>

definition rule_count :: "AutoEncoder \<Rightarrow> matrix \<Rightarrow> (int \<times> int \<times> int) list \<Rightarrow> nat" where
  "rule_count m td ts = length (filter (\<lambda>(u, q, label).
      guess_matches (1 / 2 \<le> py_nth (reconstruction m (py_nth td u)) q) label) ts)"

text \<open>Automatic differentiation gives every parameter a gradient of the parameter's shape.\<close>

definition grad_shape :: "nat \<Rightarrow> nat \<Rightarrow> matrix \<times> vec \<Rightarrow> bool" where
  "grad_shape n_in n_out gr =
     (length (fst gr) = n_out \<and> list_all (\<lambda>row. length row = n_in) (fst gr) \<and>
      length (snd gr) = n_out)"

definition grads_shape :: "nat \<Rightarrow> nat \<Rightarrow> grads \<Rightarrow> bool" where
  "grads_shape num_question k gr =
     (grad_shape num_question k (grad_g gr) \<and> grad_shape k k (grad_hidden gr) \<and>
      grad_shape k num_question (grad_h gr))"

definition backward_shape :: "nat \<Rightarrow> nat \<Rightarrow> backward \<Rightarrow> bool" where
  "backward_shape num_question k bw =
     (\<forall>m x nan_mask lamb. AutoEncoder_shape num_question k m \<longrightarrow>
        grads_shape num_question k (bw m x nan_mask lamb))"

text \<open>Fixed parameter states used as concrete inputs below.\<close>

definition zero_layer :: "nat \<Rightarrow> nat \<Rightarrow> Linear" where
  "zero_layer n_in n_out =
     \<lparr>in_features = n_in, out_features = n_out,
      weight = replicate n_out (replicate n_in 0), bias = replicate n_out 0\<rparr>"

definition zero_model :: "nat \<Rightarrow> nat \<Rightarrow> AutoEncoder" where
  "zero_model num_question k =
     \<lparr>g = zero_layer num_question k, hidden = zero_layer k k,
      h = zero_layer k num_question, training = True\<rparr>"

definition hidden_only_model :: "real \<Rightarrow> AutoEncoder" where
  "hidden_only_model w =
     \<lparr>g = zero_layer 1 1,
      hidden = \<lparr>in_features = 1, out_features = 1, weight = [[w]], bias = [0]\<rparr>,
      h = zero_layer 1 1, training = True\<rparr>"

text \<open>A state whose decode biases are 100 and -200, all other parameters 0.\<close>

definition saturating_model :: AutoEncoder where
  "saturating_model =
     \<lparr>g = zero_layer 2 2, hidden = zero_layer 2 2,
      h = \<lparr>in_features = 2, out_features = 2, weight = [[0, 0], [0, 0]], bias = [100, - 200]\<rparr>,
      training = True\<rparr>"

text \<open>
  The gradient of a loss that does not depend on the parameters: zero everywhere. It is
  what \<open>backward\<close> leaves when every entry of the row is masked and \<open>lamb\<close> is 0.
\<close>

definition zero_like :: "Linear \<Rightarrow> matrix \<times> vec" where
  "zero_like l = (map (map (\<lambda>_. 0)) (weight l), map (\<lambda>_. 0) (bias l))"

definition zero_backward :: backward where
  "zero_backward m x nan_mask lamb =
     \<lparr>grad_g = zero_like (g m), grad_hidden = zero_like (hidden m), grad_h = zero_like (h m)\<rparr>"

section \<open>Properties of the model\<close>

lemma sum_list_squares_nonneg: "0 \<le> sum_list (map (\<lambda>x. x * x) (xs :: real list))"
  by (induction xs) simp_all

lemma frobenius_sq_nonneg: "0 \<le> frobenius_sq W"
  by (simp add: frobenius_sq_def sum_list_squares_nonneg)

lemma torch_norm_sq: "torch_norm W ^ 2 = frobenius_sq W"
  using sum_list_squares_nonneg [of "concat W"]
  by (simp add: torch_norm_def frobenius_sq_def power2_eq_square)

lemma get_weight_norm_eq:
  "get_weight_norm m = frobenius_sq (weight (g m)) + frobenius_sq (weight (h m))"
  by (simp add: get_weight_norm_def Let_def torch_norm_sq)

lemma frobenius_sq_zero_iff: "frobenius_sq W = 0 \<longleftrightarrow> all_zero W"
proof -
  have "sum_list (map (\<lambda>x. x * x) xs) = 0 \<longleftrightarrow> list_all (\<lambda>x. x = 0) xs"
    for xs :: "real list"
  proof (induction xs)
    case Nil
    show ?case by simp
  next
    case (Cons x xs)
    have "0 \<le> x * x" by simp
    with Cons sum_list_squares_nonneg [of xs] show ?case
      by (simp add: add_nonneg_eq_0_iff)
  qed
  then show ?thesis by (simp add: frobenius_sq_def all_zero_def)
qed

lemma get_weight_norm_nonneg: "0 \<le> get_weight_norm m"
  by (simp add: get_weight_norm_eq frobenius_sq_nonneg)

lemma get_weight_norm_zero_iff:
  "get_weight_norm m = 0 \<longleftrightarrow> all_zero (weight (g m)) \<and> all_zero (weight (h m))"
  using frobenius_sq_nonneg [of "weight (g m)"] frobenius_sq_nonneg [of "weight (h m)"]
  by (simp add: get_weight_norm_eq add_nonneg_eq_0_iff frobenius_sq_zero_iff)

text \<open>
  C1. \<open>get_weight_norm\<close> is to return the sum of the squared Frobenius norms of all
  three weight matrices. The code computes \<open>hidden_w_norm\<close> and leaves it out of the
  sum: with zero encode and decode weights and the single hidden weight 1, it returns 0
  where the sum over the three matrices is 1.
\<close>

theorem get_weight_norm_drops_hidden:
  "get_weight_norm (hidden_only_model 1) = 0 \<and> spec_weight_norm (hidden_only_model 1) = 1"
  by (simp add: get_weight_norm_def spec_weight_norm_def hidden_only_model_def zero_layer_def
      torch_norm_def frobenius_sq_def Let_def)

text \<open>
  C6. \<open>get_weight_norm\<close> is to be 0 only when all three weight matrices are all-zero.
  Because the hidden layer's norm is left out of the sum, the code returns 0 on a state
  whose hidden weight matrix is \<open>[[3]]\<close>.
\<close>

theorem get_weight_norm_zero_with_hidden_nonzero:
  "get_weight_norm (hidden_only_model 3) = 0 \<and>
   \<not> all_zero (weight (hidden (hidden_only_model 3)))"
  by (simp add: get_weight_norm_def hidden_only_model_def zero_layer_def torch_norm_def
      all_zero_def Let_def)

subsection \<open>The forward pass\<close>

lemma logistic_bounds: "0 < logistic x \<and> logistic x < 1"
proof -
  have "0 < exp (- x)" by simp
  then show ?thesis by (simp add: logistic_def add_pos_pos)
qed

lemma round_even_of_int: "round_even (of_int n) = n"
  by (simp add: round_even_def)

lemma round_even_nonneg: "0 \<le> z \<Longrightarrow> 0 \<le> round_even z"
  by (auto simp add: round_even_def Let_def)

lemma round_even_le:
  assumes "z \<le> of_int N"
  shows "round_even z \<le> N"
proof (cases "z = of_int N")
  case True
  then show ?thesis by (simp add: round_even_of_int)
next
  case False
  with assms have "z < of_int N" by simp
  then have "\<lfloor>z\<rfloor> < N" by (simp add: floor_less_iff)
  then show ?thesis by (auto simp add: round_even_def Let_def)
qed

lemma round_even_down:
  assumes "of_int n \<le> z" and "z < of_int n + 1 / 2"
  shows "round_even z = n"
proof -
  have "\<lfloor>z\<rfloor> = n" using assms by (intro floor_unique) simp_all
  with assms(2) show ?thesis by (simp add: round_even_def Let_def)
qed

lemma round_even_up:
  assumes "of_int n + 1 / 2 < z" and "z < of_int n + 1"
  shows "round_even z = n + 1"
proof -
  have "\<lfloor>z\<rfloor> = n" using assms by (intro floor_unique) simp_all
  with assms(1) show ?thesis by (simp add: round_even_def Let_def)
qed

lemma float32_round_range:
  assumes "0 \<le> y" and "y \<le> 1"
  shows "0 \<le> float32_round y \<and> float32_round y \<le> 1"
proof -
  define d where "d = doublings 125 y"
  have z0: "0 \<le> y * 2 ^ (d + 24)" using assms(1) by simp
  have "y * 2 ^ (d + 24) \<le> 1 * 2 ^ (d + 24)"
    using assms(2) by (intro mult_right_mono) simp_all
  then have z1: "y * 2 ^ (d + 24) \<le> of_int (2 ^ (d + 24))" by simp
  from round_even_nonneg [OF z0] have a: "0 \<le> round_even (y * 2 ^ (d + 24))" .
  from round_even_le [OF z1] have b: "round_even (y * 2 ^ (d + 24)) \<le> 2 ^ (d + 24)" .
  from b have "(of_int (round_even (y * 2 ^ (d + 24))) :: real) \<le> of_int (2 ^ (d + 24))"
    by (simp only: of_int_le_iff)
  then have c: "(of_int (round_even (y * 2 ^ (d + 24))) :: real) \<le> 2 ^ (d + 24)" by simp
  show ?thesis
    using a c by (simp add: float32_round_def d_def [symmetric] Let_def)
qed

lemma sigmoid_range: "0 \<le> sigmoid x \<and> sigmoid x \<le> 1"
  using logistic_bounds [of x] by (simp add: sigmoid_def float32_round_range)

lemma doublings_half: "1 / 2 \<le> y \<Longrightarrow> doublings 125 y = 0"
proof -
  assume a: "1 / 2 \<le> y"
  have "doublings (Suc 124) y = 0" by (simp only: doublings.simps a if_True)
  moreover have "(125 :: nat) = Suc 124" by simp
  ultimately show ?thesis by (simp only:)
qed

lemma float32_round_half: "float32_round (1 / 2) = 1 / 2"
proof -
  have "round_even (1 / 2 * 2 ^ 24) = round_even (of_int 8388608)" by simp
  then have "round_even (1 / 2 * 2 ^ 24) = 8388608" by (simp only: round_even_of_int)
  then show ?thesis by (simp add: float32_round_def doublings_half)
qed

lemma sigmoid_0: "sigmoid 0 = 1 / 2"
  by (simp add: sigmoid_def logistic_def float32_round_half)

lemma float32_round_near_one:
  assumes "1 - 1 / 2 ^ 25 < y" and "y \<le> 1"
  shows "float32_round y = 1"
proof -
  from assms(1) have h: "1 / 2 \<le> y" by simp
  define z where "z = y * 2 ^ 24"
  have lo: "of_int (2 ^ 24 - 1) + 1 / 2 < z" using assms(1) by (simp add: z_def field_simps)
  have hi: "z \<le> 2 ^ 24" using assms(2) by (simp add: z_def)
  have "round_even z = 2 ^ 24"
  proof (cases "z = 2 ^ 24")
    case True
    have "round_even (of_int (2 ^ 24)) = 2 ^ 24" by (rule round_even_of_int)
    with True show ?thesis by simp
  next
    case False
    with hi have "z < of_int (2 ^ 24 - 1) + 1" by simp
    with lo have "round_even z = (2 ^ 24 - 1) + 1" by (rule round_even_up)
    then show ?thesis by simp
  qed
  then show ?thesis
    unfolding z_def by (simp add: float32_round_def doublings_half [OF h])
qed

lemma doublings_small: "0 \<le> y \<Longrightarrow> y * 2 ^ n < 1 \<Longrightarrow> doublings n y = n"
proof (induction n arbitrary: y)
  case 0
  show ?case by simp
next
  case (Suc n)
  have "y * 1 \<le> y * 2 ^ n" using Suc.prems(1) by (intro mult_left_mono) simp_all
  with Suc.prems(2) have "y < 1 / 2" by simp
  moreover have "doublings n (2 * y) = n"
    using Suc.prems by (intro Suc.IH) (simp_all add: mult.assoc mult.commute)
  ultimately show ?case by simp
qed

lemma float32_round_tiny:
  assumes "0 \<le> y" and "y < 1 / 2 ^ 150"
  shows "float32_round y = 0"
proof -
  have "y * 2 ^ 125 < 1 / 2 ^ 150 * 2 ^ 125"
    using assms(2) by (intro mult_strict_right_mono) simp_all
  then have "y * 2 ^ 125 < 1" by simp
  with assms(1) have d: "doublings 125 y = 125" by (rule doublings_small)
  define z where "z = y * 2 ^ (125 + 24)"
  have "z < 1 / 2 ^ 150 * 2 ^ (125 + 24)"
    unfolding z_def using assms(2) by (intro mult_strict_right_mono) simp_all
  then have hi: "z < of_int 0 + 1 / 2" by simp
  have lo: "of_int 0 \<le> z" using assms(1) by (simp add: z_def)
  from lo hi have "round_even z = 0" by (rule round_even_down)
  then show ?thesis
    unfolding z_def by (simp add: float32_round_def d)
qed

lemma exp_ge_power2: "2 ^ n \<le> exp (real n)"
proof -
  have "(2 :: real) \<le> exp 1" using exp_ge_add_one_self [of 1] by simp
  then have "(2 :: real) ^ n \<le> exp 1 ^ n" by (intro power_mono) simp_all
  also have "exp 1 ^ n = exp (real n)" using exp_of_nat_mult [of n "1 :: real"] by simp
  finally show ?thesis .
qed

lemma sigmoid_100: "sigmoid 100 = 1"
proof -
  have e: "(2 :: real) ^ 100 \<le> exp 100" using exp_ge_power2 [of 100] by simp
  have "exp (- 100 :: real) = 1 / exp 100" by (simp add: exp_minus inverse_eq_divide)
  also have "\<dots> \<le> 1 / 2 ^ 100" using e by (intro divide_left_mono) simp_all
  also have "\<dots> < (1 :: real) / 2 ^ 25 " by simp
  finally have t: "exp (- 100 :: real) < 1 / 2 ^ 25" .
  have pos: "0 < exp (- 100 :: real)" by simp
  have "(1 - exp (- 100 :: real)) * (1 + exp (- 100)) \<le> 1"
    by (simp add: algebra_simps)
  then have "1 - exp (- 100 :: real) \<le> 1 / (1 + exp (- 100))"
    using pos by (simp only: pos_le_divide_eq add_pos_pos zero_less_one)
  then have "1 - exp (- 100 :: real) \<le> logistic 100"
    by (simp add: logistic_def)
  with t have "1 - 1 / 2 ^ 25 < logistic 100" by simp
  then show ?thesis
    using logistic_bounds [of 100] by (simp add: sigmoid_def float32_round_near_one)
qed

lemma sigmoid_minus_200: "sigmoid (- 200) = 0"
proof -
  have e: "(2 :: real) ^ 200 \<le> exp 200" using exp_ge_power2 [of 200] by simp
  have "1 / (1 + exp 200) < 1 / exp (200 :: real)"
    by (intro divide_strict_left_mono) (simp_all add: add_pos_pos)
  then have "logistic (- 200) < 1 / exp 200"
    by (simp add: logistic_def)
  also have "\<dots> \<le> 1 / 2 ^ 200" using e by (intro divide_left_mono) simp_all
  also have "\<dots> < (1 :: real) / 2 ^ 150" by simp
  finally have "logistic (- 200) < 1 / 2 ^ 150" .
  then show ?thesis
    using logistic_bounds [of "- 200"] by (simp add: sigmoid_def float32_round_tiny)
qed

lemma length_affine: "Linear_shape n_in n_out l \<Longrightarrow> length (affine l x) = n_out"
  by (simp add: Linear_shape_def affine_def)

lemma linear_shape:
  "Linear_shape n_in n_out l \<Longrightarrow> length x = n_in \<Longrightarrow> linear l x = Inr (affine l x)"
  by (simp add: Linear_shape_def linear_def)

lemma forward_reconstruction:
  assumes "AutoEncoder_shape num_question k m" and "length inputs = num_question"
  shows "forward m inputs = Inr (reconstruction m inputs)"
proof -
  from assms have sg: "Linear_shape num_question k (g m)"
    and sh: "Linear_shape k k (hidden m)" and so: "Linear_shape k num_question (h m)"
    by (simp_all add: AutoEncoder_shape_def)
  have 1: "linear (g m) inputs = Inr (affine (g m) inputs)"
    using sg assms(2) by (rule linear_shape)
  have 2: "linear (hidden m) (map sigmoid (affine (g m) inputs)) =
      Inr (affine (hidden m) (map sigmoid (affine (g m) inputs)))"
    using sh by (rule linear_shape) (simp add: length_affine [OF sg])
  have 3: "linear (h m) (map sigmoid (affine (hidden m) (map sigmoid (affine (g m) inputs)))) =
      Inr (affine (h m) (map sigmoid (affine (hidden m) (map sigmoid (affine (g m) inputs)))))"
    using so by (rule linear_shape) (simp add: length_affine [OF sh])
  show ?thesis by (simp add: forward_def 1 2 3 reconstruction_def)
qed

lemma length_reconstruction:
  "AutoEncoder_shape num_question k m \<Longrightarrow> length (reconstruction m x) = num_question"
  using length_affine [of k num_question "h m"]
  by (simp add: reconstruction_def AutoEncoder_shape_def)

lemma reconstruction_bounds: "list_all (\<lambda>y. 0 \<le> y \<and> y \<le> 1) (reconstruction m x)"
  by (simp add: reconstruction_def list_all_iff sigmoid_range)

lemma zero_model_shape: "AutoEncoder_shape num_question k (zero_model num_question k)"
  by (simp add: AutoEncoder_shape_def Linear_shape_def zero_model_def zero_layer_def list_all_iff)

lemma reconstruction_zero_model_2:
  "reconstruction (zero_model 2 2) [1, 0] = [1 / 2, 1 / 2]"
  by (simp add: reconstruction_def zero_model_def zero_layer_def affine_def dot_def sigmoid_0
      numeral_2_eq_2)

lemma forward_saturating_model: "forward saturating_model [0, 0] = Inr [1, 0]"
  by (simp add: forward_def linear_def affine_def dot_def saturating_model_def zero_layer_def
      numeral_2_eq_2 sigmoid_0 sigmoid_100 sigmoid_minus_200)

text \<open>
  C3, as stated, fails: the entries of the result need not lie strictly between 0 and 1.
  With decode biases 100 and -200 and all other parameters 0, \<open>forward\<close> returns
  \<open>[1, 0]\<close> on the input \<open>[0, 0]\<close>: the sigmoid saturates in 32-bit floats.
\<close>

theorem forward_output_not_strict:
  "AutoEncoder_shape 2 2 saturating_model \<and> length [0, 0 :: real] = 2 \<and>
   forward saturating_model [0, 0] = Inr [1, 0] \<and>
   \<not> [1, 0 :: real] ! 0 < 1 \<and> \<not> 0 < [1, 0 :: real] ! 1"
  by (simp add: forward_saturating_model)
    (simp add: AutoEncoder_shape_def Linear_shape_def saturating_model_def zero_layer_def
      list_all_iff)

text \<open>
  C3, amended. On a model of the shapes \<open>__init__(num_question, k)\<close> builds and an input
  of length \<open>num_question\<close>, \<open>forward\<close> raises nothing and returns the composition of
  three affine maps, each followed by the elementwise sigmoid; the result has length
  \<open>num_question\<close> and every entry lies in the closed interval from 0 to 1.
\<close>

theorem forward_output:
  assumes "AutoEncoder_shape num_question k m" and "length inputs = num_question"
  shows "forward m inputs = Inr (reconstruction m inputs) \<and>
         length (reconstruction m inputs) = num_question \<and>
         list_all (\<lambda>y. 0 \<le> y \<and> y \<le> 1) (reconstruction m inputs)"
  using assms by (simp add: forward_reconstruction length_reconstruction reconstruction_bounds)

theorem forward_output_witness:
  "AutoEncoder_shape 2 2 (zero_model 2 2) \<and> length [1, 0 :: real] = 2 \<and>
   forward (zero_model 2 2) [1, 0] = Inr [1 / 2, 1 / 2] \<and>
   length (reconstruction (zero_model 2 2) [1, 0]) = 2 \<and>
   list_all (\<lambda>y. 0 \<le> y \<and> y \<le> 1) (reconstruction (zero_model 2 2) [1, 0])"
  using forward_output [OF zero_model_shape [of 2 2], of "[1, 0]"]
  by (simp add: reconstruction_zero_model_2 zero_model_shape)

subsection \<open>The evaluator\<close>

lemma getitem_ok: "index_ok (length xs) i \<Longrightarrow> getitem xs i = Inr (py_nth xs i)"
  by (auto simp add: getitem_def index_ok_def py_nth_def)

lemma py_nth_row:
  "matrix_shape n_rows n_cols M \<Longrightarrow> index_ok n_rows i \<Longrightarrow> length (py_nth M i) = n_cols"
  by (auto simp add: matrix_shape_def index_ok_def py_nth_def list_all_length)

lemma evaluate_step_frame:
  "evaluate_step vd s iu = Inr s' \<Longrightarrow> ev_model s' = ev_model s \<and> ev_data s' = ev_data s"
  by (auto simp add: evaluate_step_def Let_def split: prod.splits sum.splits)

lemma evaluate_loop_frame:
  "evaluate_loop vd ius s = (r, s') \<Longrightarrow> ev_model s' = ev_model s \<and> ev_data s' = ev_data s"
proof (induction ius arbitrary: s)
  case Nil
  then show ?case by simp
next
  case (Cons iu ius)
  show ?case
  proof (cases "evaluate_step vd s iu")
    case (Inl e)
    with Cons.prems show ?thesis by simp
  next
    case (Inr s1)
    with Cons.prems have "evaluate_loop vd ius s1 = (r, s')" by simp
    from Cons.IH [OF this] evaluate_step_frame [OF Inr] show ?thesis by simp
  qed
qed

lemma evaluate_snd: "snd (evaluate m td vd) = (m\<lparr>training := False\<rparr>, td)"
proof -
  obtain r s where l: "evaluate_loop vd (enumerate 0 (user_id vd))
      \<lparr>ev_model = m\<lparr>training := False\<rparr>, ev_data = td, total = 0, correct = 0\<rparr> = (r, s)"
    by (cases "evaluate_loop vd (enumerate 0 (user_id vd))
      \<lparr>ev_model = m\<lparr>training := False\<rparr>, ev_data = td, total = 0, correct = 0\<rparr>")
  from evaluate_loop_frame [OF l] have "ev_model s = m\<lparr>training := False\<rparr>" "ev_data s = td"
    by simp_all
  then show ?thesis by (cases r) (simp_all add: evaluate_def l)
qed

lemma evaluate_training_flag: "evaluate (m\<lparr>training := b\<rparr>) td vd = evaluate m td vd"
  by (simp add: evaluate_def)

text \<open>
  C10. \<open>evaluate\<close> leaves the weights and biases of the three layers and the input
  matrix as it found them, whether it returns or raises; the only change is the training
  flag, which \<open>model.eval()\<close> clears.
\<close>

theorem evaluate_frame:
  "g (fst (snd (evaluate m train_data vd))) = g m \<and>
   hidden (fst (snd (evaluate m train_data vd))) = hidden m \<and>
   h (fst (snd (evaluate m train_data vd))) = h m \<and>
   snd (snd (evaluate m train_data vd)) = train_data \<and>
   training (fst (snd (evaluate m train_data vd))) = False"
  by (simp add: evaluate_snd)

text \<open>
  C8. A second call of \<open>evaluate\<close>, on the model and the matrix as the first call left
  them and with the same triples, returns the same accuracy (or raises the same
  exception) as the first.
\<close>

theorem evaluate_deterministic:
  "fst (evaluate (fst (snd (evaluate m train_data vd))) (snd (snd (evaluate m train_data vd))) vd) =
   fst (evaluate m train_data vd)"
  by (simp add: evaluate_snd evaluate_training_flag)

lemma evaluate_step_ok:
  assumes "AutoEncoder_shape num_question k (ev_model s)"
    and "matrix_shape num_user num_question (ev_data s)"
    and "index_ok num_user u"
    and "i < length (question_id vd)" and "i < length (is_correct vd)"
    and "index_ok num_question (question_id vd ! i)"
  shows "evaluate_step vd s (i, u) =
     Inr (s\<lparr>correct :=
              (if guess_matches
                    (1 / 2 \<le> py_nth (reconstruction (ev_model s) (py_nth (ev_data s) u))
                                  (question_id vd ! i))
                    (is_correct vd ! i)
               then correct s + 1 else correct s),
            total := total s + 1\<rparr>)"
proof -
  from assms(2) have n: "length (ev_data s) = num_user" by (simp add: matrix_shape_def)
  have row: "getitem (ev_data s) u = Inr (py_nth (ev_data s) u)"
    using assms(3) by (simp add: getitem_ok n)
  have len: "length (py_nth (ev_data s) u) = num_question"
    using assms(2,3) by (rule py_nth_row)
  have fw: "forward (ev_model s) (py_nth (ev_data s) u) =
      Inr (reconstruction (ev_model s) (py_nth (ev_data s) u))"
    using assms(1) len by (rule forward_reconstruction)
  have lr: "length (reconstruction (ev_model s) (py_nth (ev_data s) u)) = num_question"
    using assms(1) by (rule length_reconstruction)
  have v: "getitem (reconstruction (ev_model s) (py_nth (ev_data s) u)) (question_id vd ! i) =
      Inr (py_nth (reconstruction (ev_model s) (py_nth (ev_data s) u)) (question_id vd ! i))"
    using assms(6) by (simp add: getitem_ok lr)
  show ?thesis
    using assms(4,5) by (simp add: evaluate_step_def row fw v getitem_nat_def Let_def)
qed

lemma evaluate_loop_ok:
  assumes "triples_ok num_user num_question vd"
    and "AutoEncoder_shape num_question k (ev_model s)"
    and "matrix_shape num_user num_question (ev_data s)"
    and "i \<le> length (user_id vd)"
  shows "evaluate_loop vd (enumerate i (drop i (user_id vd))) s =
     (None, s\<lparr>correct := correct s + rule_count (ev_model s) (ev_data s) (drop i (triples vd)),
               total := total s + (length (user_id vd) - i)\<rparr>)"
  using assms(2-4)
proof (induction "length (user_id vd) - i" arbitrary: i s)
  case 0
  then show ?case by (simp add: rule_count_def triples_def)
next
  case (Suc d)
  from assms(1) have lq: "length (question_id vd) = length (user_id vd)"
    and lc: "length (is_correct vd) = length (user_id vd)"
    and us: "list_all (index_ok num_user) (user_id vd)"
    and qs: "list_all (index_ok num_question) (question_id vd)"
    by (simp_all add: triples_ok_def)
  from Suc.hyps(2) have i: "i < length (user_id vd)" by simp
  let ?u = "user_id vd ! i"
  define s1 where "s1 = s\<lparr>correct :=
              (if guess_matches
                    (1 / 2 \<le> py_nth (reconstruction (ev_model s) (py_nth (ev_data s) ?u))
                                  (question_id vd ! i))
                    (is_correct vd ! i)
               then correct s + 1 else correct s),
            total := total s + 1\<rparr>"
  have st: "evaluate_step vd s (i, ?u) = Inr s1"
    unfolding s1_def using Suc.prems(1,2) _ _ _ _
  proof (rule evaluate_step_ok)
    show "index_ok num_user ?u" using us i by (simp add: list_all_length)
    show "i < length (question_id vd)" using i lq by simp
    show "i < length (is_correct vd)" using i lc by simp
    show "index_ok num_question (question_id vd ! i)" using qs i lq by (simp add: list_all_length)
  qed
  have d: "drop i (user_id vd) = ?u # drop (Suc i) (user_id vd)"
    using i by (simp add: Cons_nth_drop_Suc)
  have dt: "drop i (triples vd) =
      (?u, question_id vd ! i, is_correct vd ! i) # drop (Suc i) (triples vd)"
    using i lq lc by (simp add: triples_def Cons_nth_drop_Suc [symmetric])
  have frame: "ev_model s1 = ev_model s" "ev_data s1 = ev_data s" by (simp_all add: s1_def)
  have ih: "evaluate_loop vd (enumerate (Suc i) (drop (Suc i) (user_id vd))) s1 =
     (None, s1\<lparr>correct := correct s1 +
                    rule_count (ev_model s1) (ev_data s1) (drop (Suc i) (triples vd)),
               total := total s1 + (length (user_id vd) - Suc i)\<rparr>)"
  proof (rule Suc.hyps(1))
    show "d = length (user_id vd) - Suc i" using Suc.hyps(2) by simp
    show "AutoEncoder_shape num_question k (ev_model s1)" using Suc.prems(1) by (simp add: frame)
    show "matrix_shape num_user num_question (ev_data s1)" using Suc.prems(2) by (simp add: frame)
    show "Suc i \<le> length (user_id vd)" using i by simp
  qed
  have "evaluate_loop vd (enumerate i (drop i (user_id vd))) s =
      evaluate_loop vd (enumerate (Suc i) (drop (Suc i) (user_id vd))) s1"
    by (simp add: d st)
  also note ih
  also have "s1\<lparr>correct := correct s1 +
                    rule_count (ev_model s1) (ev_data s1) (drop (Suc i) (triples vd)),
               total := total s1 + (length (user_id vd) - Suc i)\<rparr> =
      s\<lparr>correct := correct s + rule_count (ev_model s) (ev_data s) (drop i (triples vd)),
               total := total s + (length (user_id vd) - i)\<rparr>"
    using i by (simp add: s1_def dt rule_count_def)
  finally show ?case .
qed


lemma reconstruction_training: "reconstruction (m\<lparr>training := b\<rparr>) x = reconstruction m x"
  by (simp add: reconstruction_def)

lemma rule_count_training: "rule_count (m\<lparr>training := b\<rparr>) td ts = rule_count m td ts"
  by (simp add: rule_count_def reconstruction_training)

lemma rule_count_le: "rule_count m td ts \<le> length ts"
  by (simp add: rule_count_def)

lemma length_triples: "triples_ok num_user num_question vd \<Longrightarrow> length (triples vd) = length (user_id vd)"
  by (simp add: triples_ok_def triples_def)

lemma evaluate_result:
  assumes "AutoEncoder_shape num_question k m"
    and "matrix_shape num_user num_question td"
    and "triples_ok num_user num_question vd"
  shows "fst (evaluate m td vd) =
     (if user_id vd = [] then Inl ZeroDivisionError
      else Inr (real (rule_count m td (triples vd)) / real (length (user_id vd))))"
proof -
  let ?s0 = "\<lparr>ev_model = m\<lparr>training := False\<rparr>, ev_data = td, total = 0, correct = 0\<rparr>"
  have "evaluate_loop vd (enumerate 0 (drop 0 (user_id vd))) ?s0 =
     (None, ?s0\<lparr>correct := correct ?s0 + rule_count (ev_model ?s0) (ev_data ?s0) (drop 0 (triples vd)),
               total := total ?s0 + (length (user_id vd) - 0)\<rparr>)"
    using assms(3)
  proof (rule evaluate_loop_ok)
    show "AutoEncoder_shape num_question k (ev_model ?s0)"
      using assms(1) by (simp add: AutoEncoder_shape_def)
    show "matrix_shape num_user num_question (ev_data ?s0)" using assms(2) by simp
    show "0 \<le> length (user_id vd)" by simp
  qed
  then have "evaluate_loop vd (enumerate 0 (user_id vd)) ?s0 =
     (None, \<lparr>ev_model = m\<lparr>training := False\<rparr>, ev_data = td, total = length (user_id vd),
             correct = rule_count m td (triples vd)\<rparr>)"
    by (simp add: rule_count_training)
  then show ?thesis by (simp add: evaluate_def)
qed

lemma evaluate_empty: "user_id vd = [] \<Longrightarrow> fst (evaluate m td vd) = Inl ZeroDivisionError"
  by (simp add: evaluate_def)

text \<open>
  C7. For a model of the built shapes, a matrix of matching width and a non-empty set of
  in-range triples, \<open>evaluate\<close> returns \<open>correct / total\<close>, where \<open>total\<close> is the
  number of triples and \<open>correct\<close> is the number of triples whose label agrees with the
  prediction; \<open>correct\<close> is at most \<open>total\<close>, so the result lies between 0 and 1.
  For an empty triple set it raises \<open>ZeroDivisionError\<close>, whatever the model and the
  matrix.
\<close>

theorem evaluate_accuracy:
  "(AutoEncoder_shape num_question k m \<and> matrix_shape num_user num_question train_data \<and>
    triples_ok num_user num_question vd \<and> user_id vd \<noteq> [] \<longrightarrow>
      fst (evaluate m train_data vd) =
        Inr (real (rule_count m train_data (triples vd)) / real (length (triples vd))) \<and>
      length (triples vd) = length (user_id vd) \<and>
      rule_count m train_data (triples vd) \<le> length (triples vd) \<and>
      0 \<le> real (rule_count m train_data (triples vd)) / real (length (triples vd)) \<and>
      real (rule_count m train_data (triples vd)) / real (length (triples vd)) \<le> 1) \<and>
   (user_id vd = [] \<longrightarrow> fst (evaluate m train_data vd) = Inl ZeroDivisionError)"
proof (intro conjI impI)
  assume a: "AutoEncoder_shape num_question k m \<and> matrix_shape num_user num_question train_data \<and>
    triples_ok num_user num_question vd \<and> user_id vd \<noteq> []"
  let ?c = "rule_count m train_data (triples vd)"
  from a show len: "length (triples vd) = length (user_id vd)"
    using length_triples [of num_user num_question vd] by simp
  show le: "?c \<le> length (triples vd)" by (rule rule_count_le)
  from a len have pos: "0 < length (triples vd)" by simp
  show "fst (evaluate m train_data vd) = Inr (real ?c / real (length (triples vd)))"
    using a evaluate_result [of num_question k m num_user train_data vd] by (simp add: len)
  show "0 \<le> real ?c / real (length (triples vd))" by simp
  show "real ?c / real (length (triples vd)) \<le> 1" using le pos by simp
next
  assume "user_id vd = []"
  then show "fst (evaluate m train_data vd) = Inl ZeroDivisionError" by (rule evaluate_empty)
qed

text \<open>
  C5. For every triple, \<open>evaluate\<close> reads the reconstruction of the user's row at the
  question's position and counts the triple as correct exactly when "value at least 0.5"
  agrees with the label: the accuracy is the number of such triples over the number of
  triples. A value of exactly 0.5 counts as a prediction of correct: a single triple
  with that value and label 1 gives accuracy 1.
\<close>

theorem evaluate_decision_rule:
  assumes "AutoEncoder_shape num_question k m"
    and "matrix_shape num_user num_question train_data"
  shows "(triples_ok num_user num_question vd \<and> user_id vd \<noteq> [] \<longrightarrow>
      fst (evaluate m train_data vd) =
        Inr (real (length (filter (\<lambda>(u, q, label).
                guess_matches (1 / 2 \<le> py_nth (reconstruction m (py_nth train_data u)) q) label)
              (triples vd))) / real (length (triples vd)))) \<and>
    (index_ok num_user u \<and> index_ok num_question q \<and>
     py_nth (reconstruction m (py_nth train_data u)) q = 1 / 2 \<longrightarrow>
      fst (evaluate m train_data \<lparr>user_id = [u], question_id = [q], is_correct = [1]\<rparr>) = Inr 1)"
proof (intro conjI impI)
  assume a: "triples_ok num_user num_question vd \<and> user_id vd \<noteq> []"
  then have "length (triples vd) = length (user_id vd)"
    using length_triples [of num_user num_question vd] by simp
  with a show "fst (evaluate m train_data vd) =
        Inr (real (length (filter (\<lambda>(u, q, label).
                guess_matches (1 / 2 \<le> py_nth (reconstruction m (py_nth train_data u)) q) label)
              (triples vd))) / real (length (triples vd)))"
    using assms evaluate_result [of num_question k m num_user train_data vd]
    by (simp add: rule_count_def)
next
  assume b: "index_ok num_user u \<and> index_ok num_question q \<and>
     py_nth (reconstruction m (py_nth train_data u)) q = 1 / 2"
  let ?vd = "\<lparr>user_id = [u], question_id = [q], is_correct = [1]\<rparr>"
  from b have "triples_ok num_user num_question ?vd" by (simp add: triples_ok_def)
  with assms have "fst (evaluate m train_data ?vd) =
      Inr (real (rule_count m train_data (triples ?vd)) / real (length (user_id ?vd)))"
    using evaluate_result [of num_question k m num_user train_data ?vd] by simp
  moreover have "rule_count m train_data (triples ?vd) = 1"
    using b by (simp add: rule_count_def triples_def guess_matches_def)
  ultimately show "fst (evaluate m train_data ?vd) = Inr 1" by simp
qed


lemma dot_zero: "dot (replicate n 0) x = 0"
proof (induction n arbitrary: x)
  case 0
  show ?case by (simp add: dot_def)
next
  case (Suc n)
  show ?case
  proof (cases x)
    case Nil
    then show ?thesis by (simp add: dot_def)
  next
    case (Cons a as)
    with Suc [of as] show ?thesis by (simp add: dot_def)
  qed
qed

lemma affine_zero_layer: "affine (zero_layer n_in n_out) x = replicate n_out 0"
  by (simp add: affine_def zero_layer_def zip_replicate dot_zero)

lemma reconstruction_zero_model:
  "reconstruction (zero_model num_question k) x = replicate num_question (1 / 2)"
  by (simp add: reconstruction_def zero_model_def affine_zero_layer sigmoid_0)

theorem evaluate_accuracy_witness:
  "AutoEncoder_shape 2 2 (zero_model 2 2) \<and> matrix_shape 1 2 [[0, 0 :: real]] \<and>
   triples_ok 1 2 \<lparr>user_id = [0, 0], question_id = [0, 1], is_correct = [1, 0]\<rparr> \<and>
   user_id \<lparr>user_id = [0, 0], question_id = [0, 1], is_correct = [1, 0]\<rparr> \<noteq> [] \<and>
   rule_count (zero_model 2 2) [[0, 0]]
     (triples \<lparr>user_id = [0, 0], question_id = [0, 1], is_correct = [1, 0]\<rparr>) = 1 \<and>
   length (triples \<lparr>user_id = [0, 0], question_id = [0, 1], is_correct = [1, 0]\<rparr>) = 2 \<and>
   fst (evaluate (zero_model 2 2) [[0, 0]]
          \<lparr>user_id = [0, 0], question_id = [0, 1], is_correct = [1, 0]\<rparr>) = Inr (1 / 2) \<and>
   fst (evaluate (zero_model 2 2) [[0, 0]] \<lparr>user_id = [], question_id = [], is_correct = []\<rparr>) =
     Inl ZeroDivisionError"
proof -
  let ?vd = "\<lparr>user_id = [0, 0], question_id = [0, 1], is_correct = [1, 0]\<rparr>"
  have 1: "AutoEncoder_shape 2 2 (zero_model 2 2)" by (rule zero_model_shape)
  have 2: "matrix_shape 1 2 [[0, 0 :: real]]" by (simp add: matrix_shape_def)
  have 3: "triples_ok 1 2 ?vd" by (simp add: triples_ok_def index_ok_def)
  have 4: "user_id ?vd \<noteq> []" by simp
  have 5: "rule_count (zero_model 2 2) [[0, 0]] (triples ?vd) = 1"
    by (simp add: rule_count_def triples_def reconstruction_zero_model py_nth_def
        guess_matches_def)
  have 6: "length (triples ?vd) = 2" by (simp add: triples_def)
  from evaluate_accuracy [of 2 2 "zero_model 2 2" 1 "[[0, 0]]" ?vd] 1 2 3 4
  have "fst (evaluate (zero_model 2 2) [[0, 0]] ?vd) =
      Inr (real (rule_count (zero_model 2 2) [[0, 0]] (triples ?vd)) / real (length (triples ?vd)))"
    by blast
  then have 7: "fst (evaluate (zero_model 2 2) [[0, 0]] ?vd) = Inr (1 / 2)"
    by (simp only: 5 6) simp
  from evaluate_accuracy [of 2 2 "zero_model 2 2" 1 "[[0, 0]]"
      "\<lparr>user_id = [], question_id = [], is_correct = []\<rparr>"]
  have 8: "fst (evaluate (zero_model 2 2) [[0, 0]]
      \<lparr>user_id = [], question_id = [], is_correct = []\<rparr>) = Inl ZeroDivisionError"
    by simp
  from 1 2 3 4 5 6 7 8 show ?thesis by blast
qed

theorem evaluate_decision_rule_witness:
  "AutoEncoder_shape 2 2 (zero_model 2 2) \<and> matrix_shape 1 2 [[0, 0 :: real]] \<and>
   triples_ok 1 2 \<lparr>user_id = [0, 0], question_id = [0, 1], is_correct = [1, 0]\<rparr> \<and>
   fst (evaluate (zero_model 2 2) [[0, 0]]
          \<lparr>user_id = [0, 0], question_id = [0, 1], is_correct = [1, 0]\<rparr>) = Inr (1 / 2) \<and>
   index_ok 1 0 \<and> index_ok 2 1 \<and>
   py_nth (reconstruction (zero_model 2 2) (py_nth [[0, 0]] 0)) 1 = 1 / 2 \<and>
   fst (evaluate (zero_model 2 2) [[0, 0]]
          \<lparr>user_id = [0], question_id = [1], is_correct = [1]\<rparr>) = Inr 1"
proof -
  let ?vd = "\<lparr>user_id = [0, 0], question_id = [0, 1], is_correct = [1, 0]\<rparr>"
  have 1: "AutoEncoder_shape 2 2 (zero_model 2 2)" by (rule zero_model_shape)
  have 2: "matrix_shape 1 2 [[0, 0 :: real]]" by (simp add: matrix_shape_def)
  have 3: "triples_ok 1 2 ?vd" by (simp add: triples_ok_def index_ok_def)
  have 4: "index_ok 1 0" "index_ok 2 1" by (simp_all add: index_ok_def)
  have 5: "py_nth (reconstruction (zero_model 2 2) (py_nth [[0, 0]] 0)) 1 = 1 / 2"
    by (simp add: reconstruction_zero_model py_nth_def)
  note rule = evaluate_decision_rule [OF 1 2, of ?vd 0 1]
  from rule 3 have 6: "fst (evaluate (zero_model 2 2) [[0, 0]] ?vd) = Inr (1 / 2)"
    by (simp add: triples_def reconstruction_zero_model py_nth_def guess_matches_def)
  from rule 4 5 have 7: "fst (evaluate (zero_model 2 2) [[0, 0]]
          \<lparr>user_id = [0], question_id = [1], is_correct = [1]\<rparr>) = Inr 1"
    by blast
  from 1 2 3 4 5 6 7 show ?thesis by blast
qed

subsection \<open>The masked loss\<close>


lemma masked_target_ok:
  assumes "length raw = length inputs" and "length output = length inputs"
  shows "masked_target inputs (map isnan raw) output =
     Inr (map (\<lambda>i. if isnan (raw ! i) then output ! i else inputs ! i) [0..<length raw])"
proof -
  have "map (\<lambda>(t, b, out). if b then out else t) (zip inputs (zip (map isnan raw) output)) =
      map (\<lambda>i. if isnan (raw ! i) then output ! i else inputs ! i) [0..<length raw]"
    using assms by (intro nth_equalityI) simp_all
  with assms show ?thesis by (simp add: masked_target_def)
qed

lemma squared_error_sum:
  fixes inputs :: vec
  assumes "length raw = length inputs" and "length output = length inputs"
  shows "sum_list (map2 (\<lambda>out t. (out - t) ^ 2) output
            (map (\<lambda>i. if isnan (raw ! i) then output ! i else inputs ! i) [0..<length raw])) =
         sum_list (map (\<lambda>i. (output ! i - inputs ! i) ^ 2)
            (filter (\<lambda>i. \<not> isnan (raw ! i)) [0..<length raw]))"
proof -
  have "map2 (\<lambda>out t. (out - t) ^ 2) output
            (map (\<lambda>i. if isnan (raw ! i) then output ! i else inputs ! i) [0..<length raw]) =
        map (\<lambda>i. if \<not> isnan (raw ! i) then (output ! i - inputs ! i) ^ 2 else 0) [0..<length raw]"
    using assms by (intro nth_equalityI) simp_all
  then show ?thesis by (simp only: sum_list_map_filter')
qed

lemma loss_of_output_eq:
  assumes "length raw = length inputs" and "length output = length inputs"
  shows "loss_of_output m lamb inputs (map isnan raw) output =
     Inr (sum_list (map (\<lambda>i. (output ! i - inputs ! i) ^ 2)
            (filter (\<lambda>i. \<not> isnan (raw ! i)) [0..<length raw])) +
          lamb / 2 * get_weight_norm m)"
  by (simp add: loss_of_output_def masked_target_ok [OF assms] sample_loss_def
      squared_error_sum [OF assms])

lemma loss_of_output_masked_entry:
  fixes inputs :: vec
  assumes "length raw = length inputs" and "length output = length inputs"
    and "i < length raw" and "isnan (raw ! i)"
  shows "loss_of_output m lamb inputs (map isnan raw) (output[i := x]) =
         loss_of_output m lamb inputs (map isnan raw) output"
proof -
  have m: "map (\<lambda>j. ((output[i := x]) ! j - inputs ! j) ^ 2)
            (filter (\<lambda>j. \<not> isnan (raw ! j)) [0..<length raw]) =
        map (\<lambda>j. (output ! j - inputs ! j) ^ 2)
            (filter (\<lambda>j. \<not> isnan (raw ! j)) [0..<length raw])"
  proof (rule map_cong [OF refl])
    fix j
    assume "j \<in> set (filter (\<lambda>j. \<not> isnan (raw ! j)) [0..<length raw])"
    with assms(4) have "j \<noteq> i" by auto
    then show "((output[i := x]) ! j - inputs ! j) ^ 2 = (output ! j - inputs ! j) ^ 2"
      by simp
  qed
  have a: "length (output[i := x]) = length inputs" using assms(2) by simp
  show ?thesis
    by (simp only: loss_of_output_eq [OF assms(1) a] loss_of_output_eq [OF assms(1,2)] m)
qed

text \<open>
  C2. In a training step on a row whose raw, zero-filled and reconstructed versions have
  one length, the masked assignment succeeds and leaves a target that equals the
  reconstruction at every missing position, so the squared error there is exactly 0; the
  loss is the sum of the squared errors over the observed positions plus
  \<open>lamb / 2\<close> times \<open>get_weight_norm\<close>; and the loss, as a function of the
  reconstructed entry at a missing position, has derivative 0 everywhere.
\<close>

theorem masked_loss:
  assumes "length raw = length inputs" and "length output = length inputs"
  shows "\<exists>target.
     masked_target inputs (map isnan raw) output = Inr target \<and>
     (\<forall>i<length raw. isnan (raw ! i) \<longrightarrow> (output ! i - target ! i) ^ 2 = 0) \<and>
     sample_loss m lamb output target =
       sum_list (map (\<lambda>i. (output ! i - inputs ! i) ^ 2)
          (filter (\<lambda>i. \<not> isnan (raw ! i)) [0..<length raw])) +
       lamb / 2 * get_weight_norm m \<and>
     loss_of_output m lamb inputs (map isnan raw) output = Inr (sample_loss m lamb output target) \<and>
     (\<forall>i<length raw. isnan (raw ! i) \<longrightarrow>
        (\<forall>x. ((\<lambda>y. projr (loss_of_output m lamb inputs (map isnan raw) (output[i := y])))
               has_real_derivative 0) (at x)))"
proof -
  let ?target = "map (\<lambda>i. if isnan (raw ! i) then output ! i else inputs ! i) [0..<length raw]"
  have t: "masked_target inputs (map isnan raw) output = Inr ?target"
    using assms by (rule masked_target_ok)
  have z: "\<forall>i<length raw. isnan (raw ! i) \<longrightarrow> (output ! i - ?target ! i) ^ 2 = 0"
    by simp
  have l: "sample_loss m lamb output ?target =
       sum_list (map (\<lambda>i. (output ! i - inputs ! i) ^ 2)
          (filter (\<lambda>i. \<not> isnan (raw ! i)) [0..<length raw])) +
       lamb / 2 * get_weight_norm m"
    by (simp add: sample_loss_def squared_error_sum [OF assms])
  have o: "loss_of_output m lamb inputs (map isnan raw) output = Inr (sample_loss m lamb output ?target)"
    by (simp add: loss_of_output_def t)
  have d: "\<forall>i<length raw. isnan (raw ! i) \<longrightarrow>
        (\<forall>x. ((\<lambda>y. projr (loss_of_output m lamb inputs (map isnan raw) (output[i := y])))
               has_real_derivative 0) (at x))"
  proof (intro allI impI)
    fix i x
    assume i: "i < length raw" and n: "isnan (raw ! i)"
    have "(\<lambda>y. projr (loss_of_output m lamb inputs (map isnan raw) (output[i := y]))) =
        (\<lambda>y. projr (loss_of_output m lamb inputs (map isnan raw) output))"
      by (simp add: loss_of_output_masked_entry [OF assms i n])
    then show "((\<lambda>y. projr (loss_of_output m lamb inputs (map isnan raw) (output[i := y])))
               has_real_derivative 0) (at x)"
      by simp
  qed
  from t z l o d show ?thesis by blast
qed

theorem masked_loss_witness:
  "length [Some 1, None :: real option] = length [1, 0 :: real] \<and>
   length [1 / 4, 1 / 2 :: real] = length [1, 0 :: real] \<and>
   masked_target [1, 0] (map isnan [Some 1, None]) [1 / 4, 1 / 2] = Inr [1, 1 / 2] \<and>
   isnan ([Some 1, None] ! 1) \<and> ([1 / 4, 1 / 2] ! 1 - [1, 1 / 2 :: real] ! 1) ^ 2 = 0 \<and>
   sample_loss (zero_model 2 2) 3 [1 / 4, 1 / 2] [1, 1 / 2] = 9 / 16 \<and>
   loss_of_output (zero_model 2 2) 3 [1, 0] (map isnan [Some 1, None]) [1 / 4, 1 / 2] = Inr (9 / 16) \<and>
   ((\<lambda>y. projr (loss_of_output (zero_model 2 2) 3 [1, 0] (map isnan [Some 1, None])
                  ([1 / 4, 1 / 2][1 := y]))) has_real_derivative 0) (at (1 / 2))"
proof -
  have n: "get_weight_norm (zero_model 2 2) = 0"
    by (simp add: get_weight_norm_eq frobenius_sq_def zero_model_def zero_layer_def numeral_2_eq_2)
  have 1: "length [Some 1, None :: real option] = length [1, 0 :: real]"
    and 2: "length [1 / 4, 1 / 2 :: real] = length [1, 0 :: real]" by simp_all
  from masked_loss [OF 1 2, of "zero_model 2 2" 3]
  obtain target where t: "masked_target [1, 0] (map isnan [Some 1, None]) [1 / 4, 1 / 2] = Inr target"
    and l: "sample_loss (zero_model 2 2) 3 [1 / 4, 1 / 2] target =
       sum_list (map (\<lambda>i. ([1 / 4, 1 / 2] ! i - [1, 0] ! i) ^ 2)
          (filter (\<lambda>i. \<not> isnan ([Some 1, None :: real option] ! i)) [0..<length [Some 1, None :: real option]])) +
       3 / 2 * get_weight_norm (zero_model 2 2)"
    and o: "loss_of_output (zero_model 2 2) 3 [1, 0] (map isnan [Some 1, None]) [1 / 4, 1 / 2] =
       Inr (sample_loss (zero_model 2 2) 3 [1 / 4, 1 / 2] target)"
    and d: "\<forall>i<length [Some 1, None :: real option]. isnan ([Some 1, None :: real option] ! i) \<longrightarrow>
        (\<forall>x. ((\<lambda>y. projr (loss_of_output (zero_model 2 2) 3 [1, 0] (map isnan [Some 1, None]) ([1 / 4, 1 / 2][i := y])))
               has_real_derivative 0) (at x))"
    by blast
  have tv: "target = [1, 1 / 2]"
    using t by (simp add: masked_target_def isnan_def)
  have up: "[0..<length [Some 1, None :: real option]] = [0, 1]"
    by (simp add: upt_rec)
  have lv: "sample_loss (zero_model 2 2) 3 [1 / 4, 1 / 2] [1, 1 / 2] = 9 / 16"
    using l unfolding tv up n by (simp add: isnan_def power2_eq_square)
  have dv: "((\<lambda>y. projr (loss_of_output (zero_model 2 2) 3 [1, 0] (map isnan [Some 1, None])
                  ([1 / 4, 1 / 2][1 := y]))) has_real_derivative 0) (at (1 / 2))"
    using d [rule_format, of 1 "1 / 2"] by (simp add: isnan_def)
  show ?thesis using t o lv dv unfolding tv by (simp add: isnan_def)
qed

subsection \<open>A run on an all-zero model\<close>

text \<open>
  The all-zero model on one user whose two answers are both missing, with \<open>lamb = 0\<close>:
  the loss does not depend on the parameters, so the gradient is zero and every epoch
  leaves the parameters as they are.
\<close>

lemma step_zero_model:
  "step opt (zero_model 2 2\<lparr>training := b\<rparr>)
     (zero_backward (zero_model 2 2\<lparr>training := b\<rparr>) x nan_mask lamb) =
   zero_model 2 2\<lparr>training := b\<rparr>"
  by (simp add: step_def zero_backward_def zero_like_def step_layer_def zero_model_def
      zero_layer_def numeral_2_eq_2)

lemma forward_zero_model:
  "forward (zero_model 2 2\<lparr>training := b\<rparr>) [0, 0] = Inr [1 / 2, 1 / 2]"
  using forward_reconstruction [of 2 2 "zero_model 2 2\<lparr>training := b\<rparr>" "[0, 0]"]
    zero_model_shape [of 2 2]
  by (simp add: reconstruction_training reconstruction_zero_model AutoEncoder_shape_def
      numeral_2_eq_2)

lemma get_weight_norm_zero_model: "get_weight_norm (zero_model 2 2\<lparr>training := b\<rparr>) = 0"
  by (simp add: get_weight_norm_eq frobenius_sq_def zero_model_def zero_layer_def numeral_2_eq_2)

lemma train_user_zero_model:
  "train_user zero_backward opt 0 [[None, None]] [[0, 0]]
     (zero_model 2 2\<lparr>training := b\<rparr>, l) 0 =
   Inr (zero_model 2 2\<lparr>training := b\<rparr>, l)"
  by (simp add: train_user_def getitem_nat_def forward_zero_model loss_of_output_def
      masked_target_def isnan_def sample_loss_def get_weight_norm_zero_model step_zero_model)

lemma evaluate_zero_model:
  "evaluate (zero_model 2 2\<lparr>training := b\<rparr>) [[0, 0]]
     \<lparr>user_id = [0], question_id = [1], is_correct = [1]\<rparr> =
   (Inr 1, zero_model 2 2\<lparr>training := False\<rparr>, [[0, 0]])"
  by (simp add: evaluate_def enumerate_eq_zip evaluate_step_def getitem_def getitem_nat_def
      forward_zero_model guess_matches_def)

lemma run_epoch_zero_model:
  "run_epoch zero_backward opt 0 [[None, None]]
     \<lparr>user_id = [0], question_id = [1], is_correct = [1]\<rparr>
     \<lparr>model = zero_model 2 2\<lparr>training := b\<rparr>, zero_data = [[0, 0]], optimizer = opt0,
      train_loss_lst = ls, valid_acc_lst = vs\<rparr> =
   Inr \<lparr>model = zero_model 2 2\<lparr>training := False\<rparr>, zero_data = [[0, 0]], optimizer = opt,
        train_loss_lst = ls @ [0], valid_acc_lst = vs @ [1]\<rparr>"
  by (simp add: run_epoch_def train_user_zero_model evaluate_zero_model)

lemma run_epoch_zero_model_initial:
  "run_epoch zero_backward opt 0 [[None, None]]
     \<lparr>user_id = [0], question_id = [1], is_correct = [1]\<rparr>
     \<lparr>model = zero_model 2 2, zero_data = [[0, 0]], optimizer = opt0,
      train_loss_lst = ls, valid_acc_lst = vs\<rparr> =
   Inr \<lparr>model = zero_model 2 2\<lparr>training := False\<rparr>, zero_data = [[0, 0]], optimizer = opt,
        train_loss_lst = ls @ [0], valid_acc_lst = vs @ [1]\<rparr>"
  using run_epoch_zero_model [of opt True opt0 ls vs] by (simp add: zero_model_def)

subsection \<open>The learning-rate schedule\<close>

lemma run_epoch_result:
  assumes "run_epoch bw opt lamb td vd st = Inr st'"
  shows "optimizer st' = opt \<and>
         length (train_loss_lst st') = Suc (length (train_loss_lst st)) \<and>
         length (valid_acc_lst st') = Suc (length (valid_acc_lst st))"
  using assms
  by (auto simp add: run_epoch_def split: sum.splits prod.splits)

lemma train_epochs_schedule:
  assumes "a < 40 \<longrightarrow> optimizer st = SGD lr"
  shows "train_epochs bw (SGD (lr / 2)) lamb td vd [a..<b] st =
         scheduled_epochs bw lr lamb td vd [a..<b] st"
  using assms
proof (induction "b - a" arbitrary: a st)
  case 0
  then show ?case by simp
next
  case (Suc d)
  from Suc.hyps(2) have ab: "a < b" by simp
  then have up: "[a..<b] = a # [Suc a..<b]" by (rule upt_conv_Cons)
  have te: "train_epoch bw (SGD (lr / 2)) lamb td vd st a =
      run_epoch bw (SGD (scheduled_lr lr a)) lamb td vd st"
    using Suc.prems by (simp add: train_epoch_def scheduled_lr_def)
  show ?case
  proof (cases "run_epoch bw (SGD (scheduled_lr lr a)) lamb td vd st")
    case (Inl e)
    then show ?thesis by (simp add: up te)
  next
    case (Inr st1)
    from run_epoch_result [OF Inr] have o1: "optimizer st1 = SGD (scheduled_lr lr a)" by simp
    have "train_epochs bw (SGD (lr / 2)) lamb td vd [Suc a..<b] st1 =
         scheduled_epochs bw lr lamb td vd [Suc a..<b] st1"
    proof (rule Suc.hyps(1))
      show "d = b - Suc a" using Suc.hyps(2) by simp
      show "Suc a < 40 \<longrightarrow> optimizer st1 = SGD lr" by (simp add: o1 scheduled_lr_def)
    qed
    with Inr show ?thesis by (simp add: up te)
  qed
qed


lemma train_epochs_optimizer:
  "train_epochs bw optimizer_final lamb td vd [a..<b] st = Inr st' \<Longrightarrow> a < b \<Longrightarrow>
   a < 40 \<longrightarrow> optimizer st = SGD lr \<Longrightarrow> optimizer_final = SGD (lr / 2) \<Longrightarrow>
   optimizer st' = SGD (scheduled_lr lr (b - 1))"
proof (induction "b - a" arbitrary: a st)
  case 0
  then show ?case by simp
next
  case (Suc d)
  from Suc.prems(2) have up: "[a..<b] = a # [Suc a..<b]" by (rule upt_conv_Cons)
  have te: "train_epoch bw optimizer_final lamb td vd st a =
      run_epoch bw (SGD (scheduled_lr lr a)) lamb td vd st"
    using Suc.prems(3,4) by (simp add: train_epoch_def scheduled_lr_def)
  show ?case
  proof (cases "run_epoch bw (SGD (scheduled_lr lr a)) lamb td vd st")
    case (Inl e)
    with Suc.prems(1) show ?thesis by (simp add: up te)
  next
    case (Inr st1)
    from run_epoch_result [OF Inr] have o1: "optimizer st1 = SGD (scheduled_lr lr a)" by simp
    from Inr Suc.prems(1) have r: "train_epochs bw optimizer_final lamb td vd [Suc a..<b] st1 = Inr st'"
      by (simp add: up te)
    show ?thesis
    proof (cases "Suc a < b")
      case True
      show ?thesis
      proof (rule Suc.hyps(1) [OF _ r True _ Suc.prems(4)])
        show "d = b - Suc a" using Suc.hyps(2) by simp
        show "Suc a < 40 \<longrightarrow> optimizer st1 = SGD lr" by (simp add: o1 scheduled_lr_def)
      qed
    next
      case False
      with Suc.prems(2) have b: "b = Suc a" by simp
      with r have "st' = st1" by simp
      with o1 b show ?thesis by simp
    qed
  qed
qed

text \<open>
  C4. The epoch loop of \<open>train\<close>, which rebinds \<open>optimizer\<close> from epoch 40 on, is the
  loop in which every epoch runs all its updates with the scheduled rate: the original
  rate at an epoch index below 40, half of it at 40 and above, with no further decay.
  When \<open>train\<close> returns, the optimizer it ends with has the rate scheduled for the last
  epoch.
\<close>

theorem train_learning_rate_schedule:
  "train bw m lr lamb train_data zero_train_data vd num_epoch =
     scheduled_train bw m lr lamb train_data zero_train_data vd num_epoch \<and>
   (\<forall>st. train bw m lr lamb train_data zero_train_data vd num_epoch = Inr st \<longrightarrow>
      optimizer st = SGD (scheduled_lr lr (nat num_epoch - 1)))"
proof (intro conjI allI impI)
  show "train bw m lr lamb train_data zero_train_data vd num_epoch =
     scheduled_train bw m lr lamb train_data zero_train_data vd num_epoch"
    by (simp add: train_def scheduled_train_def train_epochs_schedule)
next
  fix st
  assume a: "train bw m lr lamb train_data zero_train_data vd num_epoch = Inr st"
  let ?st0 = "\<lparr>model = m, zero_data = zero_train_data, optimizer = SGD lr,
              train_loss_lst = [], valid_acc_lst = []\<rparr>"
  from a have r: "train_epochs bw (SGD (lr / 2)) lamb train_data vd [0..<nat num_epoch] ?st0 = Inr st"
    by (simp add: train_def split: sum.splits)
  have "0 < nat num_epoch"
  proof (rule ccontr)
    assume "\<not> 0 < nat num_epoch"
    then have "[0..<nat num_epoch] = []" by simp
    with a show False by (simp add: train_def getitem_def)
  qed
  from train_epochs_optimizer [OF r this, of lr]
  show "optimizer st = SGD (scheduled_lr lr (nat num_epoch - 1))" by simp
qed

theorem train_learning_rate_schedule_witness:
  "(\<exists>st. train zero_backward (zero_model 2 2) (3 / 200) 0 [[None, None]] [[0, 0]]
           \<lparr>user_id = [0], question_id = [1], is_correct = [1]\<rparr> 40 = Inr st \<and>
         optimizer st = SGD (3 / 200)) \<and>
   (\<exists>st. train zero_backward (zero_model 2 2) (3 / 200) 0 [[None, None]] [[0, 0]]
           \<lparr>user_id = [0], question_id = [1], is_correct = [1]\<rparr> 41 = Inr st \<and>
         optimizer st = SGD (3 / 400))"
proof -
  let ?vd = "\<lparr>user_id = [0], question_id = [1], is_correct = [1]\<rparr>"
  have "\<exists>st. train zero_backward (zero_model 2 2) (3 / 200) 0 [[None, None]] [[0, 0]] ?vd 40 = Inr st"
    by (simp add: train_def upt_rec train_epoch_def run_epoch_zero_model run_epoch_zero_model_initial getitem_def)
  then obtain st40 where
    40: "train zero_backward (zero_model 2 2) (3 / 200) 0 [[None, None]] [[0, 0]] ?vd 40 = Inr st40"
    by blast
  have "\<exists>st. train zero_backward (zero_model 2 2) (3 / 200) 0 [[None, None]] [[0, 0]] ?vd 41 = Inr st"
    by (simp add: train_def upt_rec train_epoch_def run_epoch_zero_model run_epoch_zero_model_initial getitem_def)
  then obtain st41 where
    41: "train zero_backward (zero_model 2 2) (3 / 200) 0 [[None, None]] [[0, 0]] ?vd 41 = Inr st41"
    by blast
  from train_learning_rate_schedule [of zero_backward "zero_model 2 2" "3 / 200" 0
      "[[None, None]]" "[[0, 0]]" ?vd 40] 40
  have a: "optimizer st40 = SGD (3 / 200)" by (simp add: scheduled_lr_def)
  from train_learning_rate_schedule [of zero_backward "zero_model 2 2" "3 / 200" 0
      "[[None, None]]" "[[0, 0]]" ?vd 41] 41
  have b: "optimizer st41 = SGD (3 / 400)" by (simp add: scheduled_lr_def)
  from 40 41 a b show ?thesis by blast
qed

subsection \<open>The epoch loop\<close>

lemma step_layer_shape:
  assumes "Linear_shape n_in n_out l" and "grad_shape n_in n_out gr"
  shows "Linear_shape n_in n_out (step_layer rate l gr)"
  using assms
  by (auto simp add: Linear_shape_def grad_shape_def step_layer_def list_all_length)

lemma step_shape:
  assumes "AutoEncoder_shape num_question k m" and "grads_shape num_question k gr"
  shows "AutoEncoder_shape num_question k (step opt m gr)"
  using assms
  by (simp add: AutoEncoder_shape_def grads_shape_def step_def step_layer_shape)

lemma matrix_shape_row:
  "matrix_shape n_rows n_cols M \<Longrightarrow> u < n_rows \<Longrightarrow>
   getitem_nat M u = Inr (M ! u) \<and> length (M ! u) = n_cols"
  by (simp add: matrix_shape_def getitem_nat_def list_all_length)

lemma train_user_ok:
  assumes m: "AutoEncoder_shape num_question k m"
    and ztd: "matrix_shape num_user num_question zero_train_data"
    and td: "matrix_shape num_user num_question train_data"
    and u: "u < num_user"
    and bw: "backward_shape num_question k bw"
  shows "\<exists>m' l'. train_user bw opt lamb train_data zero_train_data (m, l) u = Inr (m', l') \<and>
           AutoEncoder_shape num_question k m'"
proof -
  let ?inputs = "zero_train_data ! u" and ?raw = "train_data ! u"
  from matrix_shape_row [OF ztd u]
  have i: "getitem_nat zero_train_data u = Inr ?inputs" and li: "length ?inputs = num_question"
    by simp_all
  from matrix_shape_row [OF td u]
  have r: "getitem_nat train_data u = Inr ?raw" and lr: "length ?raw = num_question"
    by simp_all
  have f: "forward m ?inputs = Inr (reconstruction m ?inputs)"
    using m li by (rule forward_reconstruction)
  have lo: "length (reconstruction m ?inputs) = num_question"
    using m by (rule length_reconstruction)
  have l1: "length ?raw = length ?inputs" by (simp add: li lr)
  have l2: "length (reconstruction m ?inputs) = length ?inputs" by (simp add: li lo)
  note loss = loss_of_output_eq [OF l1 l2, of m lamb]
  have s: "AutoEncoder_shape num_question k (step opt m (bw m ?inputs (map isnan ?raw) lamb))"
    using m bw by (intro step_shape) (simp_all add: backward_shape_def)
  show ?thesis
    by (simp add: train_user_def i f r loss Let_def s)
qed

lemma train_users_ok:
  assumes ztd: "matrix_shape num_user num_question zero_train_data"
    and td: "matrix_shape num_user num_question train_data"
    and bw: "backward_shape num_question k bw"
  shows "list_all (\<lambda>u. u < num_user) us \<Longrightarrow> AutoEncoder_shape num_question k m \<Longrightarrow>
     \<exists>m' l'. train_users bw opt lamb train_data zero_train_data us (m, l) = Inr (m', l') \<and>
           AutoEncoder_shape num_question k m'"
proof (induction us arbitrary: m l)
  case Nil
  then show ?case by simp
next
  case (Cons u us)
  from Cons.prems(1) have u: "u < num_user" and us: "list_all (\<lambda>u. u < num_user) us"
    by simp_all
  from train_user_ok [OF Cons.prems(2) ztd td u bw, of opt lamb l]
  obtain m1 l1 where
    1: "train_user bw opt lamb train_data zero_train_data (m, l) u = Inr (m1, l1)"
    and s1: "AutoEncoder_shape num_question k m1"
    by blast
  from Cons.IH [OF us s1, of l1] 1 show ?case by simp
qed

lemma evaluate_ok:
  assumes "AutoEncoder_shape num_question k m"
    and "matrix_shape num_user num_question td"
    and "triples_ok num_user num_question vd"
    and "user_id vd \<noteq> []"
  shows "\<exists>acc. evaluate m td vd = (Inr acc, m\<lparr>training := False\<rparr>, td)"
proof -
  have "fst (evaluate m td vd) =
      Inr (real (rule_count m td (triples vd)) / real (length (user_id vd)))"
    using evaluate_result [OF assms(1-3)] assms(4) by simp
  with evaluate_snd [of m td vd] show ?thesis
    by (cases "evaluate m td vd") simp
qed

lemma run_epoch_ok:
  assumes m: "AutoEncoder_shape num_question k (model st)"
    and ztd: "matrix_shape num_user num_question (zero_data st)"
    and td: "matrix_shape num_user num_question train_data"
    and vd: "triples_ok num_user num_question vd" "user_id vd \<noteq> []"
    and bw: "backward_shape num_question k bw"
  shows "\<exists>st'. run_epoch bw opt lamb train_data vd st = Inr st' \<and>
           AutoEncoder_shape num_question k (model st') \<and> zero_data st' = zero_data st"
proof -
  have n: "length train_data = num_user" using td by (simp add: matrix_shape_def)
  have us: "list_all (\<lambda>u. u < num_user) [0..<length train_data]"
    by (simp add: n list_all_iff)
  have m0: "AutoEncoder_shape num_question k ((model st)\<lparr>training := True\<rparr>)"
    using m by (simp add: AutoEncoder_shape_def)
  from train_users_ok [OF ztd td bw us m0, of opt lamb 0]
  obtain m1 l1 where
    1: "train_users bw opt lamb train_data (zero_data st) [0..<length train_data]
          ((model st)\<lparr>training := True\<rparr>, 0) = Inr (m1, l1)"
    and s1: "AutoEncoder_shape num_question k m1"
    by blast
  from evaluate_ok [OF s1 ztd vd]
  obtain acc where 2: "evaluate m1 (zero_data st) vd = (Inr acc, m1\<lparr>training := False\<rparr>, zero_data st)"
    by blast
  have "AutoEncoder_shape num_question k (m1\<lparr>training := False\<rparr>)"
    using s1 by (simp add: AutoEncoder_shape_def)
  then show ?thesis by (simp add: run_epoch_def 1 2)
qed

lemma train_epochs_ok:
  assumes td: "matrix_shape num_user num_question train_data"
    and vd: "triples_ok num_user num_question vd" "user_id vd \<noteq> []"
    and bw: "backward_shape num_question k bw"
  shows "AutoEncoder_shape num_question k (model st) \<Longrightarrow>
     matrix_shape num_user num_question (zero_data st) \<Longrightarrow>
     \<exists>st'. train_epochs bw optimizer_final lamb train_data vd epochs st = Inr st'"
proof (induction epochs arbitrary: st)
  case Nil
  then show ?case by simp
next
  case (Cons epoch epochs)
  from run_epoch_ok [OF Cons.prems(1,2) td vd bw,
      of "if epoch \<ge> 40 then optimizer_final else optimizer st" lamb]
  obtain st1 where
    1: "train_epoch bw optimizer_final lamb train_data vd st epoch = Inr st1"
    and s1: "AutoEncoder_shape num_question k (model st1)"
    and z1: "zero_data st1 = zero_data st"
    unfolding train_epoch_def by blast
  from Cons.prems(2) z1 have "matrix_shape num_user num_question (zero_data st1)" by simp
  from Cons.IH [OF s1 this] 1 show ?case by simp
qed

lemma train_epochs_lengths:
  "train_epochs bw optimizer_final lamb train_data vd epochs st = Inr st' \<Longrightarrow>
   length (train_loss_lst st') = length (train_loss_lst st) + length epochs \<and>
   length (valid_acc_lst st') = length (valid_acc_lst st) + length epochs"
proof (induction epochs arbitrary: st)
  case Nil
  then show ?case by simp
next
  case (Cons epoch epochs)
  show ?case
  proof (cases "train_epoch bw optimizer_final lamb train_data vd st epoch")
    case (Inl e)
    with Cons.prems show ?thesis by simp
  next
    case (Inr st1)
    with Cons.prems have "train_epochs bw optimizer_final lamb train_data vd epochs st1 = Inr st'"
      by simp
    from Cons.IH [OF this] run_epoch_result [OF Inr [unfolded train_epoch_def]]
    show ?thesis by simp
  qed
qed

lemma train_lengths:
  assumes "train bw m lr lamb train_data zero_train_data vd num_epoch = Inr st"
  shows "length (train_loss_lst st) = nat num_epoch \<and> length (valid_acc_lst st) = nat num_epoch"
proof -
  let ?st0 = "\<lparr>model = m, zero_data = zero_train_data, optimizer = SGD lr,
              train_loss_lst = [], valid_acc_lst = []\<rparr>"
  from assms have "train_epochs bw (SGD (lr * 0.5)) lamb train_data vd [0..<nat num_epoch] ?st0 = Inr st"
    by (simp add: train_def split: sum.splits)
  from train_epochs_lengths [OF this] show ?thesis by simp
qed

lemma getitem_last: "xs \<noteq> [] \<Longrightarrow> getitem xs (- 1) = Inr (last xs)"
  by (cases xs rule: rev_cases) (simp_all add: getitem_def nat_add_distrib)

text \<open>
  C9. With \<open>num_epoch = 0\<close> the loop body never runs and \<open>train\<close> raises
  \<open>IndexError\<close> at \<open>valid_acc_lst[-1]\<close>. With \<open>num_epoch\<close> at least 1, on
  well-shaped inputs with a non-empty set of in-range validation triples, \<open>train\<close>
  returns and both metric lists have length \<open>num_epoch\<close>; and whenever \<open>train\<close>
  returns at all, both lists have that length.
\<close>

theorem train_metric_lengths:
  "train bw m lr lamb train_data zero_train_data vd 0 = Inl IndexError \<and>
   (AutoEncoder_shape num_question k m \<and> matrix_shape num_user num_question train_data \<and>
    matrix_shape num_user num_question zero_train_data \<and>
    triples_ok num_user num_question vd \<and> user_id vd \<noteq> [] \<and>
    backward_shape num_question k bw \<and> 1 \<le> num_epoch \<longrightarrow>
      (\<exists>st. train bw m lr lamb train_data zero_train_data vd num_epoch = Inr st \<and>
            length (train_loss_lst st) = nat num_epoch \<and>
            length (valid_acc_lst st) = nat num_epoch)) \<and>
   (\<forall>st. train bw m lr lamb train_data zero_train_data vd num_epoch = Inr st \<longrightarrow>
      length (train_loss_lst st) = nat num_epoch \<and> length (valid_acc_lst st) = nat num_epoch)"
proof (intro conjI impI allI)
  show "train bw m lr lamb train_data zero_train_data vd 0 = Inl IndexError"
    by (simp add: train_def getitem_def)
next
  assume a: "AutoEncoder_shape num_question k m \<and> matrix_shape num_user num_question train_data \<and>
    matrix_shape num_user num_question zero_train_data \<and>
    triples_ok num_user num_question vd \<and> user_id vd \<noteq> [] \<and>
    backward_shape num_question k bw \<and> 1 \<le> num_epoch"
  let ?st0 = "\<lparr>model = m, zero_data = zero_train_data, optimizer = SGD lr,
              train_loss_lst = [], valid_acc_lst = []\<rparr>"
  from a have td: "matrix_shape num_user num_question train_data"
    and vd: "triples_ok num_user num_question vd" "user_id vd \<noteq> []"
    and bw: "backward_shape num_question k bw" by simp_all
  from a have m0: "AutoEncoder_shape num_question k (model ?st0)"
    and z0: "matrix_shape num_user num_question (zero_data ?st0)" by simp_all
  from train_epochs_ok [OF td vd bw m0 z0, of "SGD (lr * 0.5)" lamb "[0..<nat num_epoch]"]
  obtain st where
    1: "train_epochs bw (SGD (lr * 0.5)) lamb train_data vd [0..<nat num_epoch] ?st0 = Inr st"
    by blast
  from train_epochs_lengths [OF 1]
  have len: "length (train_loss_lst st) = nat num_epoch" "length (valid_acc_lst st) = nat num_epoch"
    by simp_all
  from a len(2) have "valid_acc_lst st \<noteq> []" by auto
  then have "getitem (valid_acc_lst st) (- 1) = Inr (last (valid_acc_lst st))"
    by (rule getitem_last)
  with 1 have "train bw m lr lamb train_data zero_train_data vd num_epoch = Inr st"
    unfolding train_def by simp
  with len show "\<exists>st. train bw m lr lamb train_data zero_train_data vd num_epoch = Inr st \<and>
            length (train_loss_lst st) = nat num_epoch \<and>
            length (valid_acc_lst st) = nat num_epoch"
    by blast
next
  fix st
  assume "train bw m lr lamb train_data zero_train_data vd num_epoch = Inr st"
  then show "length (train_loss_lst st) = nat num_epoch" 
    and "length (valid_acc_lst st) = nat num_epoch"
    by (simp_all add: train_lengths)
qed

lemma zero_like_shape: "Linear_shape n_in n_out l \<Longrightarrow> grad_shape n_in n_out (zero_like l)"
  by (simp add: Linear_shape_def grad_shape_def zero_like_def list_all_iff)

lemma zero_backward_shape: "backward_shape num_question k zero_backward"
  by (simp add: backward_shape_def grads_shape_def zero_backward_def AutoEncoder_shape_def
      zero_like_shape)

theorem train_metric_lengths_witness:
  "AutoEncoder_shape 2 2 (zero_model 2 2) \<and>
   matrix_shape 1 2 [[None, None :: real option]] \<and> matrix_shape 1 2 [[0, 0 :: real]] \<and>
   triples_ok 1 2 \<lparr>user_id = [0], question_id = [1], is_correct = [1]\<rparr> \<and>
   user_id \<lparr>user_id = [0], question_id = [1], is_correct = [1]\<rparr> \<noteq> [] \<and>
   backward_shape 2 2 zero_backward \<and> (1 :: int) \<le> 2 \<and>
   (\<exists>st. train zero_backward (zero_model 2 2) (3 / 200) 0 [[None, None]] [[0, 0]]
           \<lparr>user_id = [0], question_id = [1], is_correct = [1]\<rparr> 2 = Inr st \<and>
         length (train_loss_lst st) = nat 2 \<and> length (valid_acc_lst st) = nat 2) \<and>
   train zero_backward (zero_model 2 2) (3 / 200) 0 [[None, None]] [[0, 0]]
      \<lparr>user_id = [0], question_id = [1], is_correct = [1]\<rparr> 0 = Inl IndexError"
proof -
  let ?vd = "\<lparr>user_id = [0], question_id = [1], is_correct = [1]\<rparr>"
  have 1: "AutoEncoder_shape 2 2 (zero_model 2 2)" by (rule zero_model_shape)
  have 2: "matrix_shape 1 2 [[None, None :: real option]]" "matrix_shape 1 2 [[0, 0 :: real]]"
    by (simp_all add: matrix_shape_def)
  have 3: "triples_ok 1 2 ?vd" "user_id ?vd \<noteq> []" by (simp_all add: triples_ok_def index_ok_def)
  have 4: "backward_shape 2 2 zero_backward" by (rule zero_backward_shape)
  have 5: "(1 :: int) \<le> 2" by simp
  note th = train_metric_lengths [of zero_backward "zero_model 2 2" "3 / 200" 0
      "[[None, None]]" "[[0, 0]]" ?vd 2 2 1 2]
  from th have 6: "train zero_backward (zero_model 2 2) (3 / 200) 0 [[None, None]] [[0, 0]] ?vd 0 =
      Inl IndexError" by blast
  from th 1 2 3 4 5 have 7: "\<exists>st. train zero_backward (zero_model 2 2) (3 / 200) 0
        [[None, None]] [[0, 0]] ?vd 2 = Inr st \<and>
      length (train_loss_lst st) = nat 2 \<and> length (valid_acc_lst st) = nat 2"
    by blast
  from 1 2 3 4 5 6 7 show ?thesis by blast
qed

end
